theory Spec2Isabelle
  imports Main "HOL-Library.Word" "HOL-Library.Monad_Syntax"
begin

unbundle bit_operations_syntax

section \<open>The memory subsystem of the emulator (src/c64/memory.cpp)\<close>

text \<open>
  The class \<open>Memory\<close> owns two byte buffers of \<open>kMemSize\<close> bytes (\<open>mem_ram_\<close> and
  \<open>mem_rom_\<close>), the array \<open>banks_\<close> of region assignments, and pointers to the four
  peripherals. Addresses are \<open>uint16_t\<close>, bytes are \<open>uint8_t\<close>. A C++ array access
  outside its array is undefined behaviour: here every array access is checked and an
  access out of range is the value \<open>None\<close>.
\<close>

type_synonym byte = "8 word"
type_synonym addr = "16 word"

datatype kBankCfg = kROM | kRAM | kIO

subsection \<open>Constants and tables declared outside memory.cpp\<close>

text \<open>
  The headers (memory.h, c64rom.h, customrom.h) are not part of the sources at hand, so
  the constants and byte tables they declare are parameters of the model: the page and
  base addresses, the three latch masks, the three indices into \<open>banks_\<close> and its size
  (\<open>sizeof(banks_)\<close>), the ROM images and the two RAM payloads.
\<close>

record constants =
  kLORAM :: byte
  kHIRAM :: byte
  kCHAREN :: byte
  kBankBasic :: nat
  kBankCharen :: nat
  kBankKernal :: nat
  sizeof_banks :: nat
  kBaseAddrBasic :: addr
  kBaseAddrChars :: addr
  kBaseAddrKernal :: addr
  kAddrDataDirection :: addr
  kAddrMemoryLayout :: addr
  kAddrZeroPage :: addr
  kAddrVicFirstPage :: addr
  kAddrVicLastPage :: addr
  kAddrCIA1Page :: addr
  kAddrCIA2Page :: addr
  kAddrSIDPage :: addr
  kAddrBasicFirstPage :: addr
  kAddrBasicLastPage :: addr
  kAddrKernalFirstPage :: addr
  kAddrKernalLastPage :: addr
  basicRomC64 :: "byte list"
  charRomC64 :: "byte list"
  kernalRomC64 :: "byte list"
  micromon :: "byte list"
  paku_prg :: "byte list"
  paku_prg_size :: nat

text \<open>
  Modelled from the spec: \<open>kMemSize\<close> is declared in memory.h, which is missing. The
  spec fixes both buffers at 65536 bytes, and the constructor's comment says
  "64 kB memory buffers".
\<close>

definition kMemSize :: nat where
  "kMemSize = 65536"

subsection \<open>The peripherals\<close>

text \<open>
  The video chip, the two CIAs and the sound chip are external objects reached through
  pointers. Their state is one value of an abstract type \<open>'io\<close>; their entry points used
  by memory.cpp are parameters. A register read may change the peripheral's state, so it
  returns the byte and the new state. The register index is the masked address the
  source passes. The peripherals are taken to be attached and not to touch the two
  buffers of \<open>Memory\<close>.
\<close>

record 'io devices =
  vic_read_register :: "addr \<Rightarrow> 'io \<Rightarrow> byte \<times> 'io"
  vic_write_register :: "addr \<Rightarrow> byte \<Rightarrow> 'io \<Rightarrow> 'io"
  cia1_read_register :: "addr \<Rightarrow> 'io \<Rightarrow> byte \<times> 'io"
  cia1_write_register :: "addr \<Rightarrow> byte \<Rightarrow> 'io \<Rightarrow> 'io"
  cia2_read_register :: "addr \<Rightarrow> 'io \<Rightarrow> byte \<times> 'io"
  cia2_write_register :: "addr \<Rightarrow> byte \<Rightarrow> 'io \<Rightarrow> 'io"
  sid_write_register :: "addr \<Rightarrow> byte \<Rightarrow> 'io \<Rightarrow> 'io"
  vic_base_address :: "'io \<Rightarrow> addr"

subsection \<open>The state of a Memory object\<close>

record 'io memory =
  mem_ram :: "byte list"
  mem_rom :: "byte list"
  banks :: "kBankCfg list"
  io :: 'io

subsection \<open>Checked array access and counted loops\<close>

definition fetch :: "'a list \<Rightarrow> nat \<Rightarrow> 'a option" where
  "fetch xs i = (if i < length xs then Some (xs ! i) else None)"

definition store :: "'a list \<Rightarrow> nat \<Rightarrow> 'a \<Rightarrow> 'a list option" where
  "store xs i v = (if i < length xs then Some (xs[i := v]) else None)"

text \<open>\<open>for (i = i0; i < n; i++) body\<close>, stopping at the first failing access.\<close>

function for_loop :: "nat \<Rightarrow> nat \<Rightarrow> (nat \<Rightarrow> 's \<Rightarrow> 's option) \<Rightarrow> 's \<Rightarrow> 's option" where
  "for_loop i n body s =
     (if i < n
      then (case body i s of None \<Rightarrow> None | Some s' \<Rightarrow> for_loop (Suc i) n body s')
      else Some s)"
  by pat_completeness auto
termination
  by (relation "measure (\<lambda>(i, n, body, s). n - i)") auto

declare for_loop.simps [simp del]

text \<open>A straight-line run of assignments \<open>buf[i] = v\<close>, in order.\<close>

fun store_all :: "(nat \<times> 'a) list \<Rightarrow> 'a list \<Rightarrow> 'a list option" where
  "store_all [] m = Some m"
| "store_all ((i, v) # ws) m =
     (case store m i v of None \<Rightarrow> None | Some m' \<Rightarrow> store_all ws m')"

text \<open>The assignments of \<open>buf[hack++] = b\<close> for the bytes \<open>bs\<close>, starting at \<open>hack\<close>.\<close>

fun run_from :: "nat \<Rightarrow> 'a list \<Rightarrow> (nat \<times> 'a) list" where
  "run_from hack [] = []"
| "run_from hack (b # bs) = (hack, b) # run_from (Suc hack) bs"

subsection \<open>patch\_roms\<close>

definition patch_roms :: "byte list \<Rightarrow> byte list option" where
  "patch_roms rom =
     store_all
       ([(0xEB81 + 46, 0x5B), (0xEB81 + 49, 0x5D), (0xEB81 + 50, 0x27), (0xEB81 + 45, 0x3B),
         (0xEBC2 + 59, 0x40), (0xEBC2 + 19, 0x5E), (0xEBC2 + 24, 0x26), (0xEBC2 + 27, 0x2A),
         (0xEBC2 + 32, 0x28), (0xEBC2 + 35, 0x29), (0xEBC2 + 50, 0x22), (0xEBC2 + 45, 0x3A),
         (0xEBC2 + 53, 0x2B)]
        @ run_from 0xF4C4
            [0xA9, 0x04, 0x8D, 0x02, 0x00, 0xA5, 0x90, 0x4A, 0x4A, 0xB0, 0x61,
             0x20, 0xD2, 0xF5, 0x18, 0xA6, 0xAE, 0xA4, 0xAF, 0x60]
        @ run_from 0xF605 [0xA9, 0x05, 0x8D, 0x02, 0x00, 0x18, 0x60])
       rom"

subsection \<open>Byte access without I/O\<close>

definition write_byte_no_io :: "'io memory \<Rightarrow> addr \<Rightarrow> byte \<Rightarrow> 'io memory option" where
  "write_byte_no_io s a v =
     (case store (mem_ram s) (unat a) v of
        None \<Rightarrow> None
      | Some ram \<Rightarrow> Some (s\<lparr>mem_ram := ram\<rparr>))"

definition read_byte_no_io :: "'io memory \<Rightarrow> addr \<Rightarrow> byte option" where
  "read_byte_no_io s a = fetch (mem_ram s) (unat a)"

subsection \<open>setup\_memory\_banks\<close>

text \<open>
  The three copy loops and the call of \<open>patch_roms\<close> (lines 71 to 81). The index
  \<open>kBaseAddrBasic + i\<close> is computed in \<open>int\<close>, so it does not wrap.
\<close>

definition load_roms :: "constants \<Rightarrow> byte list \<Rightarrow> byte list option" where
  "load_roms K rom = do {
     rom1 \<leftarrow> for_loop 0 8192
       (\<lambda>i m. do { b \<leftarrow> fetch (basicRomC64 K) i; store m (unat (kBaseAddrBasic K) + i) b }) rom;
     rom2 \<leftarrow> for_loop 0 4096
       (\<lambda>i m. do { b \<leftarrow> fetch (charRomC64 K) i; store m (unat (kBaseAddrChars K) + i) b }) rom1;
     rom3 \<leftarrow> for_loop 0 8192
       (\<lambda>i m. do { b \<leftarrow> fetch (kernalRomC64 K) i; store m (unat (kBaseAddrKernal K) + i) b }) rom2;
     patch_roms rom3
   }"

definition setup_memory_banks :: "constants \<Rightarrow> 'io memory \<Rightarrow> byte \<Rightarrow> 'io memory option" where
  "setup_memory_banks K s v =
     (let hiram = (v AND kHIRAM K \<noteq> 0);
          loram = (v AND kLORAM K \<noteq> 0);
          charen = (v AND kCHAREN K \<noteq> 0)
      in do {
        b0 \<leftarrow> for_loop 0 (sizeof_banks K) (\<lambda>i b. store b i kRAM) (banks s);
        rom \<leftarrow> load_roms K (mem_rom s);
        b1 \<leftarrow> (if hiram then store b0 (kBankKernal K) kROM else Some b0);
        b2 \<leftarrow> (if loram \<and> hiram then store b1 (kBankBasic K) kROM else Some b1);
        b3 \<leftarrow> (if charen \<and> (loram \<or> hiram) then store b2 (kBankCharen K) kIO
               else if charen \<and> \<not> loram \<and> \<not> hiram then store b2 (kBankCharen K) kRAM
               else store b2 (kBankCharen K) kROM);
        write_byte_no_io (s\<lparr>mem_rom := rom, banks := b3\<rparr>) (kAddrMemoryLayout K) v
      })"

subsection \<open>patch\_ram\<close>

text \<open>
  Built with \<open>ML_MON_9000\<close> defined and \<open>ML_MON_C000\<close> not. \<open>sz\<close> and \<open>loadAddr\<close> are
  \<open>uint16_t\<close>: the size is truncated to 16 bits and \<open>loadAddr++\<close> wraps. The two
  pointer bytes are computed in \<open>int\<close> from \<open>0x0801 + sz - 2\<close> and truncated to a byte
  by the assignment.
\<close>

definition patch_ram :: "constants \<Rightarrow> 'io memory \<Rightarrow> 'io memory option" where
  "patch_ram K s = do {
     ram1 \<leftarrow> for_loop 2 4225
       (\<lambda>i m. do { b \<leftarrow> fetch (micromon K) i; store m (0x9000 + (i - 2)) b }) (mem_ram s);
     ram2 \<leftarrow> store ram1 0x0316 0x00;
     ram3 \<leftarrow> store ram2 0x0317 0x90;
     let sz = paku_prg_size K mod 65536;
     p1 \<leftarrow> fetch (paku_prg K) 1;
     p0 \<leftarrow> fetch (paku_prg K) 0;
     let loadAddr = (push_bit 8 (ucast p1) + ucast p0 :: addr);
     (loadAddr', ram4) \<leftarrow> for_loop 2 sz
       (\<lambda>i (la, m). do { b \<leftarrow> fetch (paku_prg K) i; m' \<leftarrow> store m (unat la) b; Some (la + 1, m') })
       (loadAddr, ram3);
     ram5 \<leftarrow> store ram4 0x2D (of_nat ((0x0801 + sz - 2) mod 256));
     ram6 \<leftarrow> store ram5 0x2E (of_nat ((0x0801 + sz - 2) div 256));
     Some (s\<lparr>mem_ram := ram6\<rparr>)
   }"

subsection \<open>write\_byte and read\_byte\<close>

definition write_byte ::
  "constants \<Rightarrow> 'io devices \<Rightarrow> 'io memory \<Rightarrow> addr \<Rightarrow> byte \<Rightarrow> 'io memory option" where
  "write_byte K D s a v =
     (let page = a AND 0xff00 in
      if page = kAddrZeroPage K then
        (if a = kAddrMemoryLayout K then setup_memory_banks K s v
         else write_byte_no_io s a v)
      else if kAddrVicFirstPage K \<le> page \<and> page \<le> kAddrVicLastPage K then
        do { c \<leftarrow> fetch (banks s) (kBankCharen K);
             if c = kIO then Some (s\<lparr>io := vic_write_register D (a AND 0x7f) v (io s)\<rparr>)
             else write_byte_no_io s a v }
      else if page = kAddrCIA1Page K then
        do { c \<leftarrow> fetch (banks s) (kBankCharen K);
             if c = kIO then Some (s\<lparr>io := cia1_write_register D (a AND 0x0f) v (io s)\<rparr>)
             else write_byte_no_io s a v }
      else if page = kAddrCIA2Page K then
        do { c \<leftarrow> fetch (banks s) (kBankCharen K);
             if c = kIO then Some (s\<lparr>io := cia2_write_register D (a AND 0x0f) v (io s)\<rparr>)
             else write_byte_no_io s a v }
      else if page = kAddrSIDPage K then
        do { c \<leftarrow> fetch (banks s) (kBankCharen K);
             if c = kIO then Some (s\<lparr>io := sid_write_register D (a AND 0xff) v (io s)\<rparr>)
             else write_byte_no_io s a v }
      else
        do { s1 \<leftarrow> write_byte_no_io s a v;
             if a = 313 \<and> v = 255 then patch_ram K s1 else Some s1 })"

definition read_byte ::
  "constants \<Rightarrow> 'io devices \<Rightarrow> 'io memory \<Rightarrow> addr \<Rightarrow> (byte \<times> 'io memory) option" where
  "read_byte K D s a =
     (let page = a AND 0xff00 in
      if kAddrVicFirstPage K \<le> page \<and> page \<le> kAddrVicLastPage K then
        do { c \<leftarrow> fetch (banks s) (kBankCharen K);
             if c = kIO then
               (let (r, w) = vic_read_register D (a AND 0x7f) (io s) in Some (r, s\<lparr>io := w\<rparr>))
             else if c = kROM then do { r \<leftarrow> fetch (mem_rom s) (unat a); Some (r, s) }
             else do { r \<leftarrow> fetch (mem_ram s) (unat a); Some (r, s) } }
      else if page = kAddrCIA1Page K then
        do { c \<leftarrow> fetch (banks s) (kBankCharen K);
             if c = kIO then
               (let (r, w) = cia1_read_register D (a AND 0x0f) (io s) in Some (r, s\<lparr>io := w\<rparr>))
             else do { r \<leftarrow> fetch (mem_ram s) (unat a); Some (r, s) } }
      else if page = kAddrCIA2Page K then
        do { c \<leftarrow> fetch (banks s) (kBankCharen K);
             if c = kIO then
               (let (r, w) = cia2_read_register D (a AND 0x0f) (io s) in Some (r, s\<lparr>io := w\<rparr>))
             else do { r \<leftarrow> fetch (mem_ram s) (unat a); Some (r, s) } }
      else if kAddrBasicFirstPage K \<le> page \<and> page \<le> kAddrBasicLastPage K then
        do { c \<leftarrow> fetch (banks s) (kBankBasic K);
             if c = kROM then do { r \<leftarrow> fetch (mem_rom s) (unat a); Some (r, s) }
             else do { r \<leftarrow> fetch (mem_ram s) (unat a); Some (r, s) } }
      else if kAddrKernalFirstPage K \<le> page \<and> page \<le> kAddrKernalLastPage K then
        do { c \<leftarrow> fetch (banks s) (kBankKernal K);
             if c = kROM then do { r \<leftarrow> fetch (mem_rom s) (unat a); Some (r, s) }
             else do { r \<leftarrow> fetch (mem_ram s) (unat a); Some (r, s) } }
      else
        do { r \<leftarrow> fetch (mem_ram s) (unat a); Some (r, s) })"

subsection \<open>Word access\<close>

text \<open>
  \<open>addr+1\<close> is passed to a \<open>uint16_t\<close> parameter, so it is taken modulo \<open>2^16\<close>: the
  addition of \<open>addr\<close> wraps. The two reads of \<open>read_word\<close> are taken left to right.
\<close>

definition read_word ::
  "constants \<Rightarrow> 'io devices \<Rightarrow> 'io memory \<Rightarrow> addr \<Rightarrow> (16 word \<times> 'io memory) option" where
  "read_word K D s a = do {
     (lo, s1) \<leftarrow> read_byte K D s a;
     (hi, s2) \<leftarrow> read_byte K D s1 (a + 1);
     Some (ucast lo OR push_bit 8 (ucast hi), s2)
   }"

definition read_word_no_io :: "'io memory \<Rightarrow> addr \<Rightarrow> 16 word option" where
  "read_word_no_io s a = do {
     lo \<leftarrow> read_byte_no_io s a;
     hi \<leftarrow> read_byte_no_io s (a + 1);
     Some (ucast lo OR push_bit 8 (ucast hi))
   }"

definition write_word ::
  "constants \<Rightarrow> 'io devices \<Rightarrow> 'io memory \<Rightarrow> addr \<Rightarrow> 16 word \<Rightarrow> 'io memory option" where
  "write_word K D s a v = do {
     s1 \<leftarrow> write_byte K D s a (ucast v);
     write_byte K D s1 (a + 1) (ucast (drop_bit 8 v))
   }"

definition write_word_no_io :: "'io memory \<Rightarrow> addr \<Rightarrow> 16 word \<Rightarrow> 'io memory option" where
  "write_word_no_io s a v = do {
     s1 \<leftarrow> write_byte_no_io s a (ucast v);
     write_byte_no_io s1 (a + 1) (ucast (drop_bit 8 v))
   }"

subsection \<open>vic\_read\_byte\<close>

text \<open>
  \<open>vic_addr\<close> is a \<open>uint16_t\<close>: the sum of the base address and the masked address is
  truncated to 16 bits. The index into \<open>mem_rom_\<close> is computed in \<open>int\<close>.
\<close>

definition vic_read_byte ::
  "constants \<Rightarrow> 'io devices \<Rightarrow> 'io memory \<Rightarrow> addr \<Rightarrow> byte option" where
  "vic_read_byte K D s a =
     (let vic_addr = vic_base_address D (io s) + (a AND 0x3fff) in
      if (0x1000 \<le> vic_addr \<and> vic_addr < 0x2000) \<or> (0x9000 \<le> vic_addr \<and> vic_addr < 0xa000)
      then fetch (mem_rom s) (unat (kBaseAddrChars K) + unat (vic_addr AND 0xfff))
      else read_byte_no_io s vic_addr)"

subsection \<open>The constructor\<close>

text \<open>
  Both buffers are allocated zeroed with \<open>kMemSize\<close> bytes; the loop then seeds the RAM
  with 0x00 at even and 0xFF at odd offsets. \<open>banks_\<close> is a member array that the
  constructor does not initialise before \<open>setup_memory_banks\<close> assigns every entry: its
  first content is the parameter \<open>junk\<close>. \<open>io0\<close> is the state of the peripherals.
\<close>

definition Memory :: "constants \<Rightarrow> (nat \<Rightarrow> kBankCfg) \<Rightarrow> 'io \<Rightarrow> 'io memory option" where
  "Memory K junk io0 = do {
     ram \<leftarrow> for_loop 0 kMemSize
       (\<lambda>i m. store m i (if push_bit 1 (drop_bit 1 i) = i then 0 else 0xFF)) (replicate kMemSize 0);
     s1 \<leftarrow> setup_memory_banks K
       \<lparr>mem_ram = ram, mem_rom = replicate kMemSize 0,
        banks = map junk [0..<sizeof_banks K], io = io0\<rparr>
       (kLORAM K OR kHIRAM K OR kCHAREN K);
     write_byte_no_io s1 (kAddrDataDirection K) 0x2f
   }"

section \<open>Conditions on the parameters\<close>

text \<open>
  What the code takes for granted about the declarations it does not contain: the tables
  are as long as the loops that read them, the three ROM images fit below the end of the
  buffer, and the three bank indices lie inside \<open>banks_\<close>.
\<close>

definition tables_ok :: "constants \<Rightarrow> bool" where
  "tables_ok K \<longleftrightarrow>
     8192 \<le> length (basicRomC64 K) \<and> 4096 \<le> length (charRomC64 K) \<and>
     8192 \<le> length (kernalRomC64 K) \<and> 4225 \<le> length (micromon K) \<and>
     2 \<le> length (paku_prg K) \<and> paku_prg_size K mod 65536 \<le> length (paku_prg K)"

definition roms_fit :: "constants \<Rightarrow> bool" where
  "roms_fit K \<longleftrightarrow>
     unat (kBaseAddrBasic K) + 8192 \<le> kMemSize \<and>
     unat (kBaseAddrChars K) + 4096 \<le> kMemSize \<and>
     unat (kBaseAddrKernal K) + 8192 \<le> kMemSize"

definition banks_ok :: "constants \<Rightarrow> bool" where
  "banks_ok K \<longleftrightarrow>
     kBankBasic K < sizeof_banks K \<and> kBankCharen K < sizeof_banks K \<and>
     kBankKernal K < sizeof_banks K"

definition well_formed :: "constants \<Rightarrow> bool" where
  "well_formed K \<longleftrightarrow> tables_ok K \<and> roms_fit K \<and> banks_ok K"

text \<open>The shape of the state that the constructor sets up and every operation keeps.\<close>

definition mem_inv :: "constants \<Rightarrow> 'io memory \<Rightarrow> bool" where
  "mem_inv K s \<longleftrightarrow>
     length (mem_ram s) = kMemSize \<and> length (mem_rom s) = kMemSize \<and>
     length (banks s) = sizeof_banks K"

subsection \<open>The page tests of write\_byte and read\_byte\<close>

definition page_of :: "addr \<Rightarrow> addr" where
  "page_of a = a AND 0xff00"

definition vic_page :: "constants \<Rightarrow> addr \<Rightarrow> bool" where
  "vic_page K a \<longleftrightarrow> kAddrVicFirstPage K \<le> page_of a \<and> page_of a \<le> kAddrVicLastPage K"

definition basic_page :: "constants \<Rightarrow> addr \<Rightarrow> bool" where
  "basic_page K a \<longleftrightarrow> kAddrBasicFirstPage K \<le> page_of a \<and> page_of a \<le> kAddrBasicLastPage K"

definition kernal_page :: "constants \<Rightarrow> addr \<Rightarrow> bool" where
  "kernal_page K a \<longleftrightarrow> kAddrKernalFirstPage K \<le> page_of a \<and> page_of a \<le> kAddrKernalLastPage K"

text \<open>The four peripheral windows that \<open>write_byte\<close> tests after the zero page.\<close>

definition io_window :: "constants \<Rightarrow> addr \<Rightarrow> bool" where
  "io_window K a \<longleftrightarrow>
     vic_page K a \<or> page_of a = kAddrCIA1Page K \<or> page_of a = kAddrCIA2Page K \<or>
     page_of a = kAddrSIDPage K"

text \<open>A write to \<open>a\<close> is handed to a peripheral in state \<open>s\<close>.\<close>

definition dispatched_write :: "constants \<Rightarrow> 'io memory \<Rightarrow> addr \<Rightarrow> bool" where
  "dispatched_write K s a \<longleftrightarrow>
     page_of a \<noteq> kAddrZeroPage K \<and> io_window K a \<and> fetch (banks s) (kBankCharen K) = Some kIO"

text \<open>
  \<open>write_byte\<close> takes its last branch at \<open>a\<close>; \<open>read_byte\<close> takes its last branch
  at \<open>a\<close>.
\<close>

definition plain_write :: "constants \<Rightarrow> addr \<Rightarrow> bool" where
  "plain_write K a \<longleftrightarrow> page_of a \<noteq> kAddrZeroPage K \<and> \<not> io_window K a"

definition plain_read :: "constants \<Rightarrow> addr \<Rightarrow> bool" where
  "plain_read K a \<longleftrightarrow>
     \<not> vic_page K a \<and> page_of a \<noteq> kAddrCIA1Page K \<and> page_of a \<noteq> kAddrCIA2Page K \<and>
     \<not> basic_page K a \<and> \<not> kernal_page K a"

subsection \<open>The latch bits and the rule table\<close>

definition hiram_set :: "constants \<Rightarrow> byte \<Rightarrow> bool" where
  "hiram_set K v \<longleftrightarrow> v AND kHIRAM K \<noteq> 0"

definition loram_set :: "constants \<Rightarrow> byte \<Rightarrow> bool" where
  "loram_set K v \<longleftrightarrow> v AND kLORAM K \<noteq> 0"

definition charen_set :: "constants \<Rightarrow> byte \<Rightarrow> bool" where
  "charen_set K v \<longleftrightarrow> v AND kCHAREN K \<noteq> 0"

text \<open>
  The content of \<open>banks_\<close> after the assignments of \<open>setup_memory_banks\<close>, when none of
  them is out of range.
\<close>

definition assigned_banks :: "constants \<Rightarrow> byte \<Rightarrow> kBankCfg list" where
  "assigned_banks K v =
     (let b0 = replicate (sizeof_banks K) kRAM;
          b1 = (if hiram_set K v then b0[kBankKernal K := kROM] else b0);
          b2 = (if loram_set K v \<and> hiram_set K v then b1[kBankBasic K := kROM] else b1)
      in b2[kBankCharen K :=
              (if charen_set K v \<and> (loram_set K v \<or> hiram_set K v) then kIO
               else if charen_set K v \<and> \<not> loram_set K v \<and> \<not> hiram_set K v then kRAM
               else kROM)])"

subsection \<open>The program image\<close>

text \<open>
  The load address \<open>L\<close> that the first two bytes of \<open>paku_prg\<close> encode, low byte first,
  and the number \<open>N\<close> of program bytes after them.
\<close>

definition prg_load_address :: "constants \<Rightarrow> addr" where
  "prg_load_address K = push_bit 8 (ucast (paku_prg K ! 1)) + ucast (paku_prg K ! 0)"

definition prg_length :: "constants \<Rightarrow> nat" where
  "prg_length K = paku_prg_size K mod 65536 - 2"

text \<open>No program byte is loaded over address 313, where \<open>write_byte\<close> has its hook.\<close>

definition hook_address_clear :: "constants \<Rightarrow> bool" where
  "hook_address_clear K \<longleftrightarrow>
     (\<forall>d < prg_length K. prg_load_address K + of_nat d \<noteq> 313)"

section \<open>Buffers overwritten at fixed places\<close>

text \<open>
  \<open>overlay W c m\<close> is the buffer \<open>m\<close> with the cell \<open>k\<close> replaced by \<open>c k\<close> for every
  \<open>k\<close> in \<open>W\<close>. A procedure is a fixed patch when it always succeeds on buffers of
  \<open>N\<close> cells and its effect is such an overlay, the same for every buffer.
\<close>

definition overlay :: "nat set \<Rightarrow> (nat \<Rightarrow> 'a) \<Rightarrow> 'a list \<Rightarrow> 'a list" where
  "overlay W c m = map (\<lambda>k. if k \<in> W then c k else m ! k) [0..<length m]"

definition fixed_patch :: "nat \<Rightarrow> ('a list \<Rightarrow> 'a list option) \<Rightarrow> bool" where
  "fixed_patch N f \<longleftrightarrow> (\<exists>W c. \<forall>m. length m = N \<longrightarrow> f m = Some (overlay W c m))"

section \<open>A concrete configuration\<close>

text \<open>
  The customary memory map of the machine with small synthetic images, a set of
  peripherals that log every register access, and two states: all regions RAM, and the
  regions as latch value 7 assigns them.
\<close>

definition sample_constants :: constants where
  "sample_constants =
     \<lparr>kLORAM = 1, kHIRAM = 2, kCHAREN = 4,
      kBankBasic = 3, kBankCharen = 5, kBankKernal = 6, sizeof_banks = 7,
      kBaseAddrBasic = 0xa000, kBaseAddrChars = 0xd000, kBaseAddrKernal = 0xe000,
      kAddrDataDirection = 0x0000, kAddrMemoryLayout = 0x0001, kAddrZeroPage = 0x0000,
      kAddrVicFirstPage = 0xd000, kAddrVicLastPage = 0xd300,
      kAddrCIA1Page = 0xdc00, kAddrCIA2Page = 0xdd00, kAddrSIDPage = 0xd400,
      kAddrBasicFirstPage = 0xa000, kAddrBasicLastPage = 0xbf00,
      kAddrKernalFirstPage = 0xe000, kAddrKernalLastPage = 0xff00,
      basicRomC64 = replicate 8192 0xB5, charRomC64 = replicate 4096 0xC3,
      kernalRomC64 = replicate 8192 0xE7, micromon = replicate 4225 0xEA,
      paku_prg = [0x01, 0x08, 0xAA, 0xBB, 0xCC], paku_prg_size = 5\<rparr>"

datatype io_event =
    VicRead addr | VicWrite addr byte
  | Cia1Read addr | Cia1Write addr byte
  | Cia2Read addr | Cia2Write addr byte
  | SidWrite addr byte

definition logging_devices :: "io_event list devices" where
  "logging_devices =
     \<lparr>vic_read_register = (\<lambda>r w. (0x11, w @ [VicRead r])),
      vic_write_register = (\<lambda>r v w. w @ [VicWrite r v]),
      cia1_read_register = (\<lambda>r w. (0x22, w @ [Cia1Read r])),
      cia1_write_register = (\<lambda>r v w. w @ [Cia1Write r v]),
      cia2_read_register = (\<lambda>r w. (0x33, w @ [Cia2Read r])),
      cia2_write_register = (\<lambda>r v w. w @ [Cia2Write r v]),
      sid_write_register = (\<lambda>r v w. w @ [SidWrite r v]),
      vic_base_address = (\<lambda>w. 0x0000)\<rparr>"

definition sample_memory :: "io_event list memory" where
  "sample_memory =
     \<lparr>mem_ram = replicate 65536 0x5A, mem_rom = replicate 65536 0xC3,
      banks = replicate 7 kRAM, io = []\<rparr>"

definition sample_memory_io :: "io_event list memory" where
  "sample_memory_io =
     \<lparr>mem_ram = replicate 65536 0x5A, mem_rom = replicate 65536 0xC3,
      banks = [kRAM, kRAM, kRAM, kROM, kRAM, kIO, kROM], io = []\<rparr>"

text \<open>
  The same configuration with a character table that is not uniform, and a state whose
  ROM image is still blank.
\<close>

definition font_constants :: constants where
  "font_constants = sample_constants\<lparr>charRomC64 := (replicate 4096 0xC3)[0x234 := 0x34]\<rparr>"

definition blank_memory :: "io_event list memory" where
  "blank_memory = sample_memory\<lparr>mem_rom := replicate 65536 0x00\<rparr>"

text \<open>What \<open>read_byte_no_io\<close> returns at \<open>a\<close> on a freshly constructed \<open>Memory\<close>.\<close>

definition peek_constructed :: "constants \<Rightarrow> addr \<Rightarrow> byte option" where
  "peek_constructed K a =
     (case Memory K (\<lambda>_. kRAM) ([] :: io_event list) of
        None \<Rightarrow> None
      | Some s \<Rightarrow> read_byte_no_io s a)"

section \<open>Loops and patches\<close>

lemma for_loop_rule:
  assumes "P i s" and "i \<le> n"
    and "\<And>j t. i \<le> j \<Longrightarrow> j < n \<Longrightarrow> P j t \<Longrightarrow> \<exists>t'. body j t = Some t' \<and> P (Suc j) t'"
  shows "\<exists>t. for_loop i n body s = Some t \<and> P n t"
  using assms
proof (induction i n body s rule: for_loop.induct)
  case (1 i n body s)
  show ?case
  proof (cases "i < n")
    case True
    from "1.prems"(3)[of i s] True "1.prems"(1)
    obtain s' where s': "body i s = Some s'" "P (Suc i) s'" by auto
    have "\<exists>t. for_loop (Suc i) n body s' = Some t \<and> P n t"
      using "1.IH"[OF True s'(1) s'(2)] True "1.prems"(3) by auto
    then show ?thesis using True s' by (subst for_loop.simps) simp
  next
    case False
    with "1.prems" have "i = n" by simp
    then show ?thesis using "1.prems"(1) by (subst for_loop.simps) simp
  qed
qed

lemma length_overlay [simp]: "length (overlay W c m) = length m"
  by (simp add: overlay_def)

lemma nth_overlay [simp]:
  "k < length m \<Longrightarrow> overlay W c m ! k = (if k \<in> W then c k else m ! k)"
  by (simp add: overlay_def)

lemma overlay_overlay:
  "overlay W2 c2 (overlay W1 c1 m) = overlay (W1 \<union> W2) (\<lambda>k. if k \<in> W2 then c2 k else c1 k) m"
  by (rule nth_equalityI) simp_all

lemma overlay_idem: "overlay W c (overlay W c m) = overlay W c m"
  by (rule nth_equalityI) simp_all

lemma store_overlay: "i < length m \<Longrightarrow> store m i v = Some (overlay {i} (\<lambda>_. v) m)"
proof -
  assume i: "i < length m"
  have "m[i := v] = overlay {i} (\<lambda>_. v) m"
    by (rule nth_equalityI) (simp_all add: nth_list_update)
  with i show ?thesis by (simp add: store_def)
qed

lemma fixed_patch_store: "i < N \<Longrightarrow> fixed_patch N (\<lambda>m. store m i v)"
  unfolding fixed_patch_def
  by (rule exI[of _ "{i}"], rule exI[of _ "\<lambda>_. v"]) (simp add: store_overlay)

lemma fixed_patch_Some: "fixed_patch N Some"
proof -
  have "overlay {} (\<lambda>_. undefined) m = m" for m :: "'a list"
    by (rule nth_equalityI) simp_all
  then have "\<forall>m::'a list. length m = N \<longrightarrow> Some m = Some (overlay {} (\<lambda>_. undefined) m)"
    by simp
  then show ?thesis unfolding fixed_patch_def
    by (intro exI[of _ "{}"] exI[of _ "\<lambda>_. undefined"])
qed

lemma fixed_patch_bind:
  assumes "fixed_patch N f" and "fixed_patch N g"
  shows "fixed_patch N (\<lambda>m. Option.bind (f m) g)"
proof -
  from assms(1) obtain W1 c1 where f: "\<And>m. length m = N \<Longrightarrow> f m = Some (overlay W1 c1 m)"
    unfolding fixed_patch_def by auto
  from assms(2) obtain W2 c2 where g: "\<And>m. length m = N \<Longrightarrow> g m = Some (overlay W2 c2 m)"
    unfolding fixed_patch_def by auto
  have "\<forall>m. length m = N \<longrightarrow>
      Option.bind (f m) g = Some (overlay (W1 \<union> W2) (\<lambda>k. if k \<in> W2 then c2 k else c1 k) m)"
    by (simp add: f g overlay_overlay)
  then show ?thesis unfolding fixed_patch_def
    by (intro exI[of _ "W1 \<union> W2"] exI[of _ "\<lambda>k. if k \<in> W2 then c2 k else c1 k"])
qed

lemma fixed_patch_idem:
  assumes "fixed_patch N f" and "length m = N"
  shows "\<exists>m'. f m = Some m' \<and> length m' = N \<and> f m' = Some m'"
proof -
  from assms(1) obtain W c where f: "\<And>m. length m = N \<Longrightarrow> f m = Some (overlay W c m)"
    unfolding fixed_patch_def by auto
  show ?thesis using assms(2) by (simp add: f overlay_idem)
qed

lemma fixed_patch_store_all:
  "\<forall>(i, v) \<in> set ws. i < N \<Longrightarrow> fixed_patch N (store_all ws)"
proof (induction ws)
  case Nil
  have "store_all [] = (Some :: 'a list \<Rightarrow> _)" by (rule ext) simp
  then show ?case by (simp add: fixed_patch_Some)
next
  case (Cons w ws)
  obtain i v where w: "w = (i, v)" by (cases w)
  have eq: "store_all (w # ws) = (\<lambda>m. Option.bind (store m i v) (store_all ws))"
    by (rule ext) (simp add: w split: option.splits)
  show ?case unfolding eq
    by (rule fixed_patch_bind) (use Cons w in \<open>auto intro: fixed_patch_store\<close>)
qed

lemma copy_loop:
  assumes "n \<le> length tab" and "i0 \<le> n" and "base + (n - i0) \<le> length m"
  shows "for_loop i0 n (\<lambda>i m. do { b \<leftarrow> fetch tab i; store m (base + (i - i0)) b }) m
         = Some (overlay {base..<base + (n - i0)} (\<lambda>k. tab ! (k - base + i0)) m)"
proof -
  let ?body = "\<lambda>i m. do { b \<leftarrow> fetch tab i; store m (base + (i - i0)) b }"
  let ?P = "\<lambda>j t. t = overlay {base..<base + (j - i0)} (\<lambda>k. tab ! (k - base + i0)) m"
  have step: "\<exists>t'. ?body j t = Some t' \<and> ?P (Suc j) t'"
    if j: "i0 \<le> j" "j < n" and t: "?P j t" for j t
  proof -
    define p where "p = base + (j - i0)"
    define c where "c = (\<lambda>k. tab ! (k - base + i0))"
    have t': "t = overlay {base..<p} c m" using t by (simp add: p_def c_def)
    have len: "length t = length m" using t by simp
    have p_lt: "p < length m" using j assms by (simp add: p_def)
    have base_le: "base \<le> p" by (simp add: p_def)
    have cp: "c p = tab ! j" using j by (simp add: p_def c_def)
    have Sp: "base + (Suc j - i0) = Suc p" using j by (simp add: p_def)
    have f: "fetch tab j = Some (tab ! j)" using j assms(1) by (simp add: fetch_def)
    have s: "store t p (tab ! j) = Some (t[p := tab ! j])"
      using p_lt len by (simp add: store_def)
    have "t[p := tab ! j] = overlay {base..<Suc p} c m"
    proof (rule nth_equalityI)
      show "length (t[p := tab ! j]) = length (overlay {base..<Suc p} c m)"
        using len by simp
    next
      fix k assume "k < length (t[p := tab ! j])"
      then have k: "k < length m" using len by simp
      show "t[p := tab ! j] ! k = overlay {base..<Suc p} c m ! k"
        using k len cp base_le by (auto simp: t' nth_list_update less_Suc_eq)
    qed
    then have "?P (Suc j) (t[p := tab ! j])" unfolding Sp c_def .
    moreover have "?body j t = Some (t[p := tab ! j])"
      using f s by (simp add: p_def)
    ultimately show ?thesis by simp
  qed
  have init: "?P i0 m" by (rule nth_equalityI) simp_all
  from for_loop_rule[of ?P i0 m n ?body, OF init assms(2) step]
  show ?thesis by auto
qed

lemma copy_loop0:
  assumes "n \<le> length tab" and "base + n \<le> length m"
  shows "for_loop 0 n (\<lambda>i m. do { b \<leftarrow> fetch tab i; store m (base + i) b }) m
         = Some (overlay {base..<base + n} (\<lambda>k. tab ! (k - base)) m)"
  using copy_loop[of n tab 0 base m] assms by simp

lemma fill_loop:
  assumes "length b = n"
  shows "for_loop 0 n (\<lambda>i b. store b i v) b = Some (replicate n v)"
proof -
  let ?P = "\<lambda>j t. length t = n \<and> (\<forall>k<j. t ! k = v)"
  have step: "\<exists>t'. store t j v = Some t' \<and> ?P (Suc j) t'" if "j < n" "?P j t" for j t
    using that by (auto simp: store_def nth_list_update less_Suc_eq)
  from for_loop_rule[of ?P 0 b n "\<lambda>i b. store b i v"] assms step
  obtain t where t: "for_loop 0 n (\<lambda>i b. store b i v) b = Some t" "?P n t" by auto
  have "t = replicate n v" using t(2) by (auto intro: nth_equalityI)
  with t(1) show ?thesis by simp
qed

lemma fixed_patch_copy:
  assumes "n \<le> length tab" and "base + n \<le> N"
  shows "fixed_patch N (for_loop 0 n (\<lambda>i m. do { b \<leftarrow> fetch tab i; store m (base + i) b }))"
  unfolding fixed_patch_def
  by (rule exI[of _ "{base..<base + n}"], rule exI[of _ "\<lambda>k. tab ! (k - base)"])
     (use assms in \<open>simp add: copy_loop0\<close>)

lemma fixed_patch_patch_roms: "fixed_patch kMemSize patch_roms"
proof -
  have "fixed_patch kMemSize (store_all
       ([(0xEB81 + 46, 0x5B), (0xEB81 + 49, 0x5D), (0xEB81 + 50, 0x27), (0xEB81 + 45, 0x3B),
         (0xEBC2 + 59, 0x40), (0xEBC2 + 19, 0x5E), (0xEBC2 + 24, 0x26), (0xEBC2 + 27, 0x2A),
         (0xEBC2 + 32, 0x28), (0xEBC2 + 35, 0x29), (0xEBC2 + 50, 0x22), (0xEBC2 + 45, 0x3A),
         (0xEBC2 + 53, 0x2B)]
        @ run_from 0xF4C4
            [0xA9, 0x04, 0x8D, 0x02, 0x00, 0xA5, 0x90, 0x4A, 0x4A, 0xB0, 0x61,
             0x20, 0xD2, 0xF5, 0x18, 0xA6, 0xAE, 0xA4, 0xAF, 0x60]
        @ run_from 0xF605 [0xA9, 0x05, 0x8D, 0x02, 0x00, 0x18, 0x60 :: byte]))"
    by (rule fixed_patch_store_all) (simp add: kMemSize_def)
  moreover have "patch_roms = store_all
       ([(0xEB81 + 46, 0x5B), (0xEB81 + 49, 0x5D), (0xEB81 + 50, 0x27), (0xEB81 + 45, 0x3B),
         (0xEBC2 + 59, 0x40), (0xEBC2 + 19, 0x5E), (0xEBC2 + 24, 0x26), (0xEBC2 + 27, 0x2A),
         (0xEBC2 + 32, 0x28), (0xEBC2 + 35, 0x29), (0xEBC2 + 50, 0x22), (0xEBC2 + 45, 0x3A),
         (0xEBC2 + 53, 0x2B)]
        @ run_from 0xF4C4
            [0xA9, 0x04, 0x8D, 0x02, 0x00, 0xA5, 0x90, 0x4A, 0x4A, 0xB0, 0x61,
             0x20, 0xD2, 0xF5, 0x18, 0xA6, 0xAE, 0xA4, 0xAF, 0x60]
        @ run_from 0xF605 [0xA9, 0x05, 0x8D, 0x02, 0x00, 0x18, 0x60])"
    by (rule ext) (simp only: patch_roms_def)
  ultimately show ?thesis by simp
qed

lemma fixed_patch_load_roms:
  assumes "tables_ok K" and "roms_fit K"
  shows "fixed_patch kMemSize (load_roms K)"
proof -
  let ?b = "for_loop 0 8192
       (\<lambda>i m. do { b \<leftarrow> fetch (basicRomC64 K) i; store m (unat (kBaseAddrBasic K) + i) b })"
  let ?c = "for_loop 0 4096
       (\<lambda>i m. do { b \<leftarrow> fetch (charRomC64 K) i; store m (unat (kBaseAddrChars K) + i) b })"
  let ?k = "for_loop 0 8192
       (\<lambda>i m. do { b \<leftarrow> fetch (kernalRomC64 K) i; store m (unat (kBaseAddrKernal K) + i) b })"
  have b: "fixed_patch kMemSize ?b" and c: "fixed_patch kMemSize ?c"
    and k: "fixed_patch kMemSize ?k"
    using assms by (auto simp: tables_ok_def roms_fit_def intro!: fixed_patch_copy)
  have kp: "fixed_patch kMemSize (\<lambda>m. Option.bind (?k m) patch_roms)"
    using k fixed_patch_patch_roms by (rule fixed_patch_bind)
  have ckp: "fixed_patch kMemSize (\<lambda>m. Option.bind (?c m) (\<lambda>m. Option.bind (?k m) patch_roms))"
    using c kp by (rule fixed_patch_bind)
  have "fixed_patch kMemSize
          (\<lambda>m. Option.bind (?b m) (\<lambda>m. Option.bind (?c m) (\<lambda>m. Option.bind (?k m) patch_roms)))"
    using b ckp by (rule fixed_patch_bind)
  moreover have "load_roms K
     = (\<lambda>m. Option.bind (?b m) (\<lambda>m. Option.bind (?c m) (\<lambda>m. Option.bind (?k m) patch_roms)))"
    by (rule ext) (simp only: load_roms_def)
  ultimately show ?thesis by simp
qed

lemma load_roms_idem:
  assumes "tables_ok K" and "roms_fit K" and "length m = kMemSize"
  shows "\<exists>m'. load_roms K m = Some m' \<and> length m' = kMemSize \<and> load_roms K m' = Some m'"
  using fixed_patch_idem[OF fixed_patch_load_roms[OF assms(1,2)] assms(3)] .

section \<open>Reconfiguration and the RAM patch\<close>

lemma unat_addr_lt: "unat (a :: addr) < 65536"
  using unsigned_less[of a, where 'a = nat] by simp

lemma store_Some: "i < length xs \<Longrightarrow> store xs i v = Some (xs[i := v])"
  by (simp add: store_def)

lemma fetch_Some: "i < length xs \<Longrightarrow> fetch xs i = Some (xs ! i)"
  by (simp add: fetch_def)

lemma length_assigned_banks [simp]: "length (assigned_banks K v) = sizeof_banks K"
  by (simp add: assigned_banks_def Let_def)

lemma setup_memory_banks_result:
  assumes wf: "well_formed K" and inv: "mem_inv K s"
    and rom: "load_roms K (mem_rom s) = Some rom"
  shows "setup_memory_banks K s v
         = Some (s\<lparr>mem_ram := (mem_ram s)[unat (kAddrMemoryLayout K) := v],
                  mem_rom := rom, banks := assigned_banks K v\<rparr>)"
proof -
  have fill: "for_loop 0 (sizeof_banks K) (\<lambda>i b. store b i kRAM) (banks s)
              = Some (replicate (sizeof_banks K) kRAM)"
    using inv by (simp add: fill_loop mem_inv_def)
  have idx: "kBankBasic K < sizeof_banks K" "kBankCharen K < sizeof_banks K"
    "kBankKernal K < sizeof_banks K"
    using wf by (simp_all add: well_formed_def banks_ok_def)
  have ram: "unat (kAddrMemoryLayout K) < length (mem_ram s)"
    using inv unat_addr_lt[of "kAddrMemoryLayout K"] by (simp add: mem_inv_def kMemSize_def)
  show ?thesis
    unfolding setup_memory_banks_def
    using idx ram
    by (simp add: fill rom Let_def store_Some write_byte_no_io_def assigned_banks_def
        hiram_set_def loram_set_def charen_set_def)
qed

lemma addr_offset_inj:
  assumes "d < 65536" and "d' < 65536" and "(L :: addr) + of_nat d = L + of_nat d'"
  shows "d = d'"
proof -
  from assms(3) have "(of_nat d :: addr) = of_nat d'" by simp
  then have "unat (of_nat d :: addr) = unat (of_nat d' :: addr)" by simp
  then show ?thesis using assms(1,2) by (simp add: unat_of_nat)
qed

lemma payload_loop:
  fixes L :: addr
  assumes sz: "sz \<le> length prg" "sz < 65536" and len: "length m = kMemSize"
  shows "\<exists>la t. for_loop 2 sz
            (\<lambda>i (la, m). do { b \<leftarrow> fetch prg i; m' \<leftarrow> store m (unat la) b; Some (la + 1, m') })
            (L, m) = Some (la, t)
         \<and> length t = kMemSize
         \<and> (\<forall>d < sz - 2. t ! unat (L + of_nat d) = prg ! (d + 2))
         \<and> (\<forall>k. (\<forall>d < sz - 2. k \<noteq> unat (L + of_nat d)) \<longrightarrow> t ! k = m ! k)"
proof (cases "2 \<le> sz")
  case False
  then have "for_loop 2 sz
            (\<lambda>i (la, m). do { b \<leftarrow> fetch prg i; m' \<leftarrow> store m (unat la) b; Some (la + 1, m') })
            (L, m) = Some (L, m)"
    by (subst for_loop.simps) simp
  moreover have "sz - 2 = 0" using False by simp
  ultimately show ?thesis using len by simp
next
  case True
  let ?body = "\<lambda>i (la, m). do { b \<leftarrow> fetch prg i; m' \<leftarrow> store m (unat la) b; Some (la + 1, m') }"
  let ?P = "\<lambda>j (la, t). la = L + of_nat (j - 2) \<and> length t = kMemSize
         \<and> (\<forall>d<j - 2. t ! unat (L + of_nat d) = prg ! (d + 2))
         \<and> (\<forall>k. (\<forall>d<j - 2. k \<noteq> unat (L + of_nat d)) \<longrightarrow> t ! k = m ! k)"
  have step: "\<exists>t'. ?body j x = Some t' \<and> ?P (Suc j) t'"
    if j: "2 \<le> j" "j < sz" and x: "?P j x" for j x
  proof -
    obtain la t where xt: "x = (la, t)" by (cases x)
    from x xt have la: "la = L + of_nat (j - 2)" and lt: "length t = kMemSize"
      and old: "\<And>d. d < j - 2 \<Longrightarrow> t ! unat (L + of_nat d) = prg ! (d + 2)"
      and rest: "\<And>k. (\<forall>d<j - 2. k \<noteq> unat (L + of_nat d)) \<Longrightarrow> t ! k = m ! k"
      by auto
    have f: "fetch prg j = Some (prg ! j)" using j sz by (simp add: fetch_Some)
    have in_range: "unat la < length t" using lt unat_addr_lt[of la] by (simp add: kMemSize_def)
    have s: "store t (unat la) (prg ! j) = Some (t[unat la := prg ! j])"
      using in_range by (simp add: store_Some)
    have Sj: "Suc j - 2 = Suc (j - 2)" using j by simp
    have "(of_nat (Suc (j - 2)) :: addr) = of_nat (j - 2) + 1" by simp
    then have la1: "la + 1 = L + of_nat (Suc j - 2)" unfolding Sj la by simp
    have new: "t[unat la := prg ! j] ! unat (L + of_nat d) = prg ! (d + 2)"
      if d: "d < Suc (j - 2)" for d
    proof (cases "d = j - 2")
      case True
      have e1: "d + 2 = j" using True j by arith
      have e2: "unat (L + of_nat d) = unat la" unfolding la True ..
      show ?thesis unfolding e2 e1 using in_range by simp
    next
      case False
      then have d': "d < j - 2" using d by simp
      have b1: "d < 65536" and b2: "j - 2 < 65536" using d' j sz by arith+
      have "L + of_nat d \<noteq> L + of_nat (j - 2)"
        using addr_offset_inj[OF b1 b2, of L] d' by blast
      then have "unat (L + of_nat d) \<noteq> unat la" unfolding la
        using word_unat_eq_iff by blast
      then show ?thesis using old[OF d'] by simp
    qed
    have keep: "t[unat la := prg ! j] ! k = m ! k"
      if k: "\<forall>d<Suc (j - 2). k \<noteq> unat (L + of_nat d)" for k
    proof -
      from k have "k \<noteq> unat la" unfolding la by blast
      moreover from k have "\<forall>d<j - 2. k \<noteq> unat (L + of_nat d)" by simp
      ultimately show ?thesis using rest by simp
    qed
    have "?body j x = Some (la + 1, t[unat la := prg ! j])"
      by (simp add: xt f s)
    moreover have "la + 1 = L + of_nat (Suc j - 2) \<and> length (t[unat la := prg ! j]) = kMemSize
         \<and> (\<forall>d<Suc j - 2. t[unat la := prg ! j] ! unat (L + of_nat d) = prg ! (d + 2))
         \<and> (\<forall>k. (\<forall>d<Suc j - 2. k \<noteq> unat (L + of_nat d)) \<longrightarrow> t[unat la := prg ! j] ! k = m ! k)"
      unfolding Sj using la1[unfolded Sj] lt new keep by (intro conjI allI impI) simp_all
    then have "?P (Suc j) (la + 1, t[unat la := prg ! j])" by simp
    ultimately show ?thesis by blast
  qed
  have init: "?P 2 (L, m)" using len by simp
  from for_loop_rule[of ?P 2 "(L, m)" sz ?body, OF init True step]
  obtain r where r: "for_loop 2 sz ?body (L, m) = Some r" "?P sz r" by blast
  obtain la t where "r = (la, t)" by (cases r)
  with r show ?thesis by auto
qed

lemma patch_ram_result:
  assumes tab: "tables_ok K" and len: "length (mem_ram s) = kMemSize"
  shows "\<exists>ram'. patch_ram K s = Some (s\<lparr>mem_ram := ram'\<rparr>) \<and> length ram' = kMemSize
     \<and> ram' ! 0x2D = of_nat ((0x0801 + paku_prg_size K mod 65536 - 2) mod 256)
     \<and> ram' ! 0x2E = of_nat ((0x0801 + paku_prg_size K mod 65536 - 2) div 256)
     \<and> (\<forall>d < prg_length K. unat (prg_load_address K + of_nat d) \<notin> {0x2D, 0x2E} \<longrightarrow>
            ram' ! unat (prg_load_address K + of_nat d) = paku_prg K ! (d + 2))
     \<and> (\<forall>k < kMemSize. k \<notin> {0x9000..<0x9000 + 4223} \<union> {0x316, 0x317, 0x2D, 0x2E} \<longrightarrow>
            (\<forall>d < prg_length K. k \<noteq> unat (prg_load_address K + of_nat d)) \<longrightarrow>
            ram' ! k = mem_ram s ! k)"
proof -
  define sz where "sz = paku_prg_size K mod 65536"
  define L where "L = prg_load_address K"
  define ram1 where "ram1 = overlay {0x9000..<0x9000 + (4225 - 2)} (\<lambda>k. micromon K ! (k - 0x9000 + 2)) (mem_ram s)"
  define ram3 where "ram3 = ram1[0x0316 := 0x00, 0x0317 := 0x90]"
  have N: "prg_length K = sz - 2" by (simp add: prg_length_def sz_def)
  have l1: "length ram1 = kMemSize" using len by (simp add: ram1_def)
  have l3: "length ram3 = kMemSize" using l1 by (simp add: ram3_def)
  have mon: "for_loop 2 4225
       (\<lambda>i m. do { b \<leftarrow> fetch (micromon K) i; store m (0x9000 + (i - 2)) b }) (mem_ram s)
     = Some ram1"
    unfolding ram1_def using tab len
    by (intro copy_loop) (simp_all add: tables_ok_def kMemSize_def)
  have st: "store ram1 0x0316 0x00 = Some (ram1[0x0316 := 0x00])"
    "store (ram1[0x0316 := 0x00]) 0x0317 0x90 = Some ram3"
    using l1 by (simp_all add: store_Some ram3_def kMemSize_def)
  have p: "fetch (paku_prg K) 1 = Some (paku_prg K ! 1)" "fetch (paku_prg K) 0 = Some (paku_prg K ! 0)"
    using tab by (auto simp: fetch_def tables_ok_def)
  have szb: "sz \<le> length (paku_prg K)" "sz < 65536"
    using tab by (simp_all add: tables_ok_def sz_def)
  from payload_loop[OF szb l3, of L]
  obtain la ram4 where loop: "for_loop 2 sz
            (\<lambda>i (la, m). do { b \<leftarrow> fetch (paku_prg K) i; m' \<leftarrow> store m (unat la) b; Some (la + 1, m') })
            (L, ram3) = Some (la, ram4)"
    and l4: "length ram4 = kMemSize"
    and new: "\<And>d. d < sz - 2 \<Longrightarrow> ram4 ! unat (L + of_nat d) = paku_prg K ! (d + 2)"
    and keep: "\<And>k. (\<forall>d < sz - 2. k \<noteq> unat (L + of_nat d)) \<Longrightarrow> ram4 ! k = ram3 ! k"
    by blast
  define lo :: byte where "lo = of_nat ((0x0801 + sz - 2) mod 256)"
  define hi :: byte where "hi = of_nat ((0x0801 + sz - 2) div 256)"
  define ram6 where "ram6 = ram4[0x2D := lo, 0x2E := hi]"
  have st2: "store ram4 0x2D lo = Some (ram4[0x2D := lo])"
    "store (ram4[0x2D := lo]) 0x2E hi = Some ram6"
    using l4 by (simp_all add: store_Some ram6_def kMemSize_def)
  have L_eq: "push_bit 8 (ucast (paku_prg K ! Suc 0)) + ucast (paku_prg K ! 0) = L"
    by (simp add: L_def prg_load_address_def)
  have lo_eq: "word_of_nat ((2047 + sz) mod 256) = lo"
    and hi_eq: "word_of_nat ((2047 + sz) div 256) = hi"
    by (simp_all add: lo_def hi_def)
  have res: "patch_ram K s = Some (s\<lparr>mem_ram := ram6\<rparr>)"
    unfolding patch_ram_def
    using mon st p loop st2
    by (simp add: Let_def sz_def[symmetric] L_eq lo_eq hi_eq)
  have l6: "length ram6 = kMemSize" using l4 by (simp add: ram6_def)
  have a: "ram6 ! 0x2D = lo" "ram6 ! 0x2E = hi"
    using l4 by (simp_all add: ram6_def kMemSize_def)
  have b: "ram6 ! unat (L + of_nat d) = paku_prg K ! (d + 2)"
    if "d < sz - 2" "unat (L + of_nat d) \<notin> {0x2D, 0x2E}" for d
    using that new by (simp add: ram6_def)
  have c: "ram6 ! k = mem_ram s ! k"
    if kb: "k < kMemSize" and k: "k \<notin> {0x9000..<0x9000 + 4223} \<union> {0x316, 0x317, 0x2D, 0x2E}"
      "\<forall>d < sz - 2. k \<noteq> unat (L + of_nat d)" for k
  proof -
    have "ram6 ! k = ram4 ! k" using k(1) by (simp add: ram6_def)
    also have "\<dots> = ram3 ! k" using keep k(2) by simp
    also have "\<dots> = ram1 ! k" using k(1) by (simp add: ram3_def)
    also have "\<dots> = mem_ram s ! k" using k(1) kb len by (auto simp: ram1_def)
    finally show ?thesis .
  qed
  show ?thesis
    using res l6 a b c unfolding N L_def[symmetric] lo_def hi_def sz_def[symmetric]
    by (intro exI[of _ ram6] conjI allI impI) simp_all
qed

lemma setup_memory_banks_total:
  assumes wf: "well_formed K" and inv: "mem_inv K s"
  shows "\<exists>rom. load_roms K (mem_rom s) = Some rom \<and> length rom = kMemSize
           \<and> load_roms K rom = Some rom
           \<and> setup_memory_banks K s v
             = Some (s\<lparr>mem_ram := (mem_ram s)[unat (kAddrMemoryLayout K) := v],
                      mem_rom := rom, banks := assigned_banks K v\<rparr>)"
proof -
  have "tables_ok K" "roms_fit K" "length (mem_rom s) = kMemSize"
    using wf inv by (simp_all add: well_formed_def mem_inv_def)
  from load_roms_idem[OF this]
  obtain rom where rom: "load_roms K (mem_rom s) = Some rom" "length rom = kMemSize"
    "load_roms K rom = Some rom" by blast
  show ?thesis
    using rom setup_memory_banks_result[OF wf inv rom(1), of v] by simp
qed

lemma assigned_banks_lookup:
  assumes ok: "banks_ok K"
    and dist: "distinct [kBankBasic K, kBankCharen K, kBankKernal K]"
  shows "fetch (assigned_banks K v) (kBankKernal K)
           = Some (if hiram_set K v then kROM else kRAM)"
    and "fetch (assigned_banks K v) (kBankBasic K)
           = Some (if loram_set K v \<and> hiram_set K v then kROM else kRAM)"
    and "fetch (assigned_banks K v) (kBankCharen K)
           = Some (if charen_set K v
                   then (if loram_set K v \<or> hiram_set K v then kIO else kRAM)
                   else kROM)"
  using ok dist
  by (simp_all add: fetch_def banks_ok_def assigned_banks_def Let_def)

lemma assigned_banks_charen:
  assumes ok: "banks_ok K"
  shows "fetch (assigned_banks K v) (kBankCharen K)
           = Some (if charen_set K v
                   then (if loram_set K v \<or> hiram_set K v then kIO else kRAM)
                   else kROM)"
  using ok
  by (simp add: fetch_def banks_ok_def assigned_banks_def Let_def)

section \<open>Byte access\<close>

lemma read_byte_no_io_Some:
  "length (mem_ram s) = kMemSize \<Longrightarrow> read_byte_no_io s a = Some (mem_ram s ! unat a)"
  using unat_addr_lt[of a] by (simp add: read_byte_no_io_def fetch_Some kMemSize_def)

lemma write_byte_no_io_Some:
  "length (mem_ram s) = kMemSize \<Longrightarrow>
   write_byte_no_io s a v = Some (s\<lparr>mem_ram := (mem_ram s)[unat a := v]\<rparr>)"
  using unat_addr_lt[of a] by (simp add: write_byte_no_io_def store_Some kMemSize_def)

lemma fetch_ram: "length m = kMemSize \<Longrightarrow> fetch m (unat (a :: addr)) = Some (m ! unat a)"
  using unat_addr_lt[of a] by (simp add: fetch_Some kMemSize_def)

lemma read_byte_pages:
  "read_byte K D s a =
     (if vic_page K a then
        do { c \<leftarrow> fetch (banks s) (kBankCharen K);
             if c = kIO then
               (let (r, w) = vic_read_register D (a AND 0x7f) (io s) in Some (r, s\<lparr>io := w\<rparr>))
             else if c = kROM then do { r \<leftarrow> fetch (mem_rom s) (unat a); Some (r, s) }
             else do { r \<leftarrow> fetch (mem_ram s) (unat a); Some (r, s) } }
      else if page_of a = kAddrCIA1Page K then
        do { c \<leftarrow> fetch (banks s) (kBankCharen K);
             if c = kIO then
               (let (r, w) = cia1_read_register D (a AND 0x0f) (io s) in Some (r, s\<lparr>io := w\<rparr>))
             else do { r \<leftarrow> fetch (mem_ram s) (unat a); Some (r, s) } }
      else if page_of a = kAddrCIA2Page K then
        do { c \<leftarrow> fetch (banks s) (kBankCharen K);
             if c = kIO then
               (let (r, w) = cia2_read_register D (a AND 0x0f) (io s) in Some (r, s\<lparr>io := w\<rparr>))
             else do { r \<leftarrow> fetch (mem_ram s) (unat a); Some (r, s) } }
      else if basic_page K a then
        do { c \<leftarrow> fetch (banks s) (kBankBasic K);
             if c = kROM then do { r \<leftarrow> fetch (mem_rom s) (unat a); Some (r, s) }
             else do { r \<leftarrow> fetch (mem_ram s) (unat a); Some (r, s) } }
      else if kernal_page K a then
        do { c \<leftarrow> fetch (banks s) (kBankKernal K);
             if c = kROM then do { r \<leftarrow> fetch (mem_rom s) (unat a); Some (r, s) }
             else do { r \<leftarrow> fetch (mem_ram s) (unat a); Some (r, s) } }
      else
        do { r \<leftarrow> fetch (mem_ram s) (unat a); Some (r, s) })"
  unfolding read_byte_def vic_page_def basic_page_def kernal_page_def page_of_def Let_def
  by (rule refl)

lemma write_byte_pages:
  "write_byte K D s a v =
     (if page_of a = kAddrZeroPage K then
        (if a = kAddrMemoryLayout K then setup_memory_banks K s v
         else write_byte_no_io s a v)
      else if vic_page K a then
        do { c \<leftarrow> fetch (banks s) (kBankCharen K);
             if c = kIO then Some (s\<lparr>io := vic_write_register D (a AND 0x7f) v (io s)\<rparr>)
             else write_byte_no_io s a v }
      else if page_of a = kAddrCIA1Page K then
        do { c \<leftarrow> fetch (banks s) (kBankCharen K);
             if c = kIO then Some (s\<lparr>io := cia1_write_register D (a AND 0x0f) v (io s)\<rparr>)
             else write_byte_no_io s a v }
      else if page_of a = kAddrCIA2Page K then
        do { c \<leftarrow> fetch (banks s) (kBankCharen K);
             if c = kIO then Some (s\<lparr>io := cia2_write_register D (a AND 0x0f) v (io s)\<rparr>)
             else write_byte_no_io s a v }
      else if page_of a = kAddrSIDPage K then
        do { c \<leftarrow> fetch (banks s) (kBankCharen K);
             if c = kIO then Some (s\<lparr>io := sid_write_register D (a AND 0xff) v (io s)\<rparr>)
             else write_byte_no_io s a v }
      else
        do { s1 \<leftarrow> write_byte_no_io s a v;
             if a = 313 \<and> v = 255 then patch_ram K s1 else Some s1 })"
  unfolding write_byte_def vic_page_def page_of_def Let_def
  by (rule refl)

lemma read_byte_plain:
  assumes "plain_read K a" and "length (mem_ram s) = kMemSize"
  shows "read_byte K D s a = Some (mem_ram s ! unat a, s)"
  using assms by (simp add: read_byte_pages plain_read_def fetch_ram)

lemma addr_less_iff_le_pred:
  "(v :: addr) < 0x2000 \<longleftrightarrow> v \<le> 0x1FFF" "(v :: addr) < 0xa000 \<longleftrightarrow> v \<le> 0x9FFF"
  by (auto simp: word_less_nat_alt word_le_nat_alt)

lemma unat_and_fff: "unat ((v :: addr) AND 0xfff) < 4096"
proof -
  have "v AND 0xfff \<le> 0xfff" by (rule word_and_le1)
  then show ?thesis by (simp add: word_le_nat_alt)
qed

lemma mem_inv_io [simp]: "mem_inv K (s\<lparr>io := w\<rparr>) = mem_inv K s"
  by (simp add: mem_inv_def)

lemma mem_inv_ram_update:
  "mem_inv K s \<Longrightarrow> mem_inv K (s\<lparr>mem_ram := (mem_ram s)[i := v]\<rparr>)"
  by (simp add: mem_inv_def)

lemma fetch_bank:
  assumes "mem_inv K s" and "banks_ok K"
  shows "fetch (banks s) (kBankCharen K) = Some (banks s ! kBankCharen K)"
    and "fetch (banks s) (kBankBasic K) = Some (banks s ! kBankBasic K)"
    and "fetch (banks s) (kBankKernal K) = Some (banks s ! kBankKernal K)"
  using assms by (simp_all add: mem_inv_def banks_ok_def fetch_def)

lemma read_byte_total:
  assumes inv: "mem_inv K s" and ok: "banks_ok K"
  shows "\<exists>r s'. read_byte K D s a = Some (r, s') \<and> mem_inv K s'"
proof -
  have len: "length (mem_ram s) = kMemSize" "length (mem_rom s) = kMemSize"
    using inv by (simp_all add: mem_inv_def)
  show ?thesis
    unfolding read_byte_pages
    using inv
    by (simp add: fetch_bank[OF inv ok] fetch_ram len split: prod.splits)
qed

lemma patch_ram_total:
  assumes "tables_ok K" and "mem_inv K s"
  shows "\<exists>s'. patch_ram K s = Some s' \<and> mem_inv K s'"
proof -
  have len: "length (mem_ram s) = kMemSize" using assms(2) by (simp add: mem_inv_def)
  from patch_ram_result[OF assms(1) len]
  obtain ram' where "patch_ram K s = Some (s\<lparr>mem_ram := ram'\<rparr>)" "length ram' = kMemSize"
    by blast
  then show ?thesis using assms(2) by (simp add: mem_inv_def)
qed

lemma write_byte_no_io_total:
  assumes "mem_inv K s"
  shows "\<exists>s'. write_byte_no_io s a v = Some s' \<and> mem_inv K s'"
proof -
  have len: "length (mem_ram s) = kMemSize" using assms by (simp add: mem_inv_def)
  show ?thesis
    using assms by (simp add: write_byte_no_io_Some[OF len] mem_inv_ram_update)
qed

lemma setup_memory_banks_inv:
  assumes "well_formed K" and "mem_inv K s"
  shows "\<exists>s'. setup_memory_banks K s v = Some s' \<and> mem_inv K s'"
proof -
  from setup_memory_banks_total[OF assms, of v]
  obtain rom where "length rom = kMemSize"
    "setup_memory_banks K s v
             = Some (s\<lparr>mem_ram := (mem_ram s)[unat (kAddrMemoryLayout K) := v],
                      mem_rom := rom, banks := assigned_banks K v\<rparr>)"
    by blast
  then show ?thesis using assms(2) by (simp add: mem_inv_def)
qed

lemma write_byte_total:
  assumes wf: "well_formed K" and inv: "mem_inv K s"
  shows "\<exists>s'. write_byte K D s a v = Some s' \<and> mem_inv K s'"
proof -
  have ok: "banks_ok K" and tab: "tables_ok K" using wf by (simp_all add: well_formed_def)
  have len: "length (mem_ram s) = kMemSize" using inv by (simp add: mem_inv_def)
  have upd: "mem_inv K (s\<lparr>mem_ram := (mem_ram s)[i := x]\<rparr>)" for i x
    by (rule mem_inv_ram_update[OF inv])
  have hook: "\<exists>s'. patch_ram K (s\<lparr>mem_ram := (mem_ram s)[i := x]\<rparr>) = Some s' \<and> mem_inv K s'"
    for i x
    by (rule patch_ram_total[OF tab upd])
  have reconf: "\<exists>s'. setup_memory_banks K s x = Some s' \<and> mem_inv K s'" for x
    by (rule setup_memory_banks_inv[OF wf inv])
  show ?thesis
    unfolding write_byte_pages
    using inv
    by (simp add: fetch_bank[OF inv ok] write_byte_no_io_Some[OF len] upd hook reconf)
qed

lemma write_byte_hook:
  assumes tab: "tables_ok K" and inv: "mem_inv K s" and clear: "hook_address_clear K"
  shows "\<exists>s'. patch_ram K (s\<lparr>mem_ram := (mem_ram s)[313 := 255]\<rparr>) = Some s'
           \<and> read_byte_no_io s' 313 = Some 255"
proof -
  let ?s1 = "s\<lparr>mem_ram := (mem_ram s)[313 := 255]\<rparr>"
  have len: "length (mem_ram s) = kMemSize" using inv by (simp add: mem_inv_def)
  have len1: "length (mem_ram ?s1) = kMemSize" using len by simp
  from patch_ram_result[OF tab len1]
  obtain ram' where res: "patch_ram K ?s1 = Some (?s1\<lparr>mem_ram := ram'\<rparr>)"
    and l': "length ram' = kMemSize"
    and frame: "\<forall>k < kMemSize. k \<notin> {0x9000..<0x9000 + 4223} \<union> {0x316, 0x317, 0x2D, 0x2E} \<longrightarrow>
            (\<forall>d < prg_length K. k \<noteq> unat (prg_load_address K + of_nat d)) \<longrightarrow>
            ram' ! k = mem_ram ?s1 ! k"
    by blast
  have miss: "\<forall>d < prg_length K. 313 \<noteq> unat (prg_load_address K + of_nat d)"
  proof (intro allI impI)
    fix d assume "d < prg_length K"
    then have "prg_load_address K + of_nat d \<noteq> 313"
      using clear by (simp add: hook_address_clear_def)
    then have "unat (prg_load_address K + of_nat d) \<noteq> unat (313 :: addr)"
      using word_unat_eq_iff by blast
    then show "313 \<noteq> unat (prg_load_address K + of_nat d)" by simp
  qed
  have "ram' ! 313 = mem_ram ?s1 ! 313"
    using frame miss by (simp add: kMemSize_def)
  then have "ram' ! 313 = 255" using len by (simp add: kMemSize_def)
  then have "read_byte_no_io (?s1\<lparr>mem_ram := ram'\<rparr>) 313 = Some 255"
    using l' by (simp add: read_byte_no_io_def fetch_def kMemSize_def)
  with res show ?thesis by blast
qed

lemma write_byte_no_io_read_back:
  assumes "length (mem_ram s) = kMemSize"
  shows "\<exists>s'. write_byte_no_io s a v = Some s' \<and> read_byte_no_io s' a = Some v"
proof -
  have "unat a < length (mem_ram s)" using assms unat_addr_lt[of a] by (simp add: kMemSize_def)
  then show ?thesis
    by (simp add: write_byte_no_io_Some[OF assms] read_byte_no_io_def fetch_def)
qed

section \<open>The constructor\<close>

lemma init_loop:
  assumes "length m = n"
  shows "for_loop 0 n (\<lambda>i m. store m i (f i)) m = Some (map f [0..<n])"
proof -
  let ?P = "\<lambda>j t. length t = n \<and> (\<forall>k<j. t ! k = f k)"
  have step: "\<exists>t'. store t j (f j) = Some t' \<and> ?P (Suc j) t'" if "j < n" "?P j t" for j t
    using that by (auto simp: store_def nth_list_update less_Suc_eq)
  from for_loop_rule[of ?P 0 m n "\<lambda>i m. store m i (f i)"] assms step
  obtain t where t: "for_loop 0 n (\<lambda>i m. store m i (f i)) m = Some t" "?P n t" by auto
  have "t = map f [0..<n]" using t(2) by (auto intro: nth_equalityI)
  with t(1) show ?thesis by simp
qed

lemma Memory_result:
  assumes wf: "well_formed K"
  shows "\<exists>rom. length rom = kMemSize \<and> Memory K junk io0
     = Some \<lparr>mem_ram = (map (\<lambda>i. if push_bit 1 (drop_bit 1 i) = i then 0 else 0xFF) [0..<kMemSize])
                 [unat (kAddrMemoryLayout K) := kLORAM K OR kHIRAM K OR kCHAREN K,
                  unat (kAddrDataDirection K) := 0x2f],
              mem_rom = rom,
              banks = assigned_banks K (kLORAM K OR kHIRAM K OR kCHAREN K),
              io = io0\<rparr>"
proof -
  define ram0 :: "byte list" where
    "ram0 = map (\<lambda>i. if push_bit 1 (drop_bit 1 i) = i then 0 else 0xFF) [0..<kMemSize]"
  define s0 where "s0 = \<lparr>mem_ram = ram0, mem_rom = replicate kMemSize 0,
        banks = map junk [0..<sizeof_banks K], io = io0\<rparr>"
  have seed: "for_loop 0 kMemSize
       (\<lambda>i m. store m i (if push_bit 1 (drop_bit 1 i) = i then 0 else 0xFF)) (replicate kMemSize 0)
     = Some ram0"
    unfolding ram0_def by (rule init_loop) simp
  have inv0: "mem_inv K s0" by (simp add: mem_inv_def s0_def ram0_def)
  from setup_memory_banks_total[OF wf inv0, of "kLORAM K OR kHIRAM K OR kCHAREN K"]
  obtain rom where rom: "length rom = kMemSize"
    and s1: "setup_memory_banks K s0 (kLORAM K OR kHIRAM K OR kCHAREN K)
             = Some (s0\<lparr>mem_ram := (mem_ram s0)[unat (kAddrMemoryLayout K) := kLORAM K OR kHIRAM K OR kCHAREN K],
                      mem_rom := rom, banks := assigned_banks K (kLORAM K OR kHIRAM K OR kCHAREN K)\<rparr>)"
    by blast
  have len1: "length (mem_ram (s0\<lparr>mem_ram := (mem_ram s0)[unat (kAddrMemoryLayout K) := kLORAM K OR kHIRAM K OR kCHAREN K],
                      mem_rom := rom, banks := assigned_banks K (kLORAM K OR kHIRAM K OR kCHAREN K)\<rparr>)) = kMemSize"
    by (simp add: s0_def ram0_def)
  have "Memory K junk io0
     = Some \<lparr>mem_ram = ram0
                 [unat (kAddrMemoryLayout K) := kLORAM K OR kHIRAM K OR kCHAREN K,
                  unat (kAddrDataDirection K) := 0x2f],
              mem_rom = rom,
              banks = assigned_banks K (kLORAM K OR kHIRAM K OR kCHAREN K),
              io = io0\<rparr>"
    unfolding Memory_def
    using seed s1[unfolded s0_def] write_byte_no_io_Some[OF len1, of "kAddrDataDirection K" "0x2f"]
    by (simp add: s0_def)
  then show ?thesis using rom unfolding ram0_def by blast
qed

lemma Memory_inv:
  assumes "well_formed K"
  shows "\<exists>s. Memory K junk io0 = Some s \<and> mem_inv K s"
proof -
  from Memory_result[OF assms, of junk io0]
  obtain rom where "length rom = kMemSize"
    and "Memory K junk io0
     = Some \<lparr>mem_ram = (map (\<lambda>i. if push_bit 1 (drop_bit 1 i) = i then 0 else 0xFF) [0..<kMemSize])
                 [unat (kAddrMemoryLayout K) := kLORAM K OR kHIRAM K OR kCHAREN K,
                  unat (kAddrDataDirection K) := 0x2f],
              mem_rom = rom,
              banks = assigned_banks K (kLORAM K OR kHIRAM K OR kCHAREN K),
              io = io0\<rparr>" by blast
  then show ?thesis by (simp add: mem_inv_def)
qed

text \<open>
  The constructor leaves a ROM image that \<open>load_roms\<close> produced; \<open>setup_memory_banks\<close>
  is the only procedure that writes the ROM image afterwards, and it loads it again.
\<close>

lemma Memory_rom_loaded:
  assumes wf: "well_formed K"
  shows "\<exists>s. Memory K junk io0 = Some s \<and> mem_inv K s
           \<and> load_roms K (replicate kMemSize 0) = Some (mem_rom s)"
proof -
  define ram0 :: "byte list" where
    "ram0 = map (\<lambda>i. if push_bit 1 (drop_bit 1 i) = i then 0 else 0xFF) [0..<kMemSize]"
  define s0 where "s0 = \<lparr>mem_ram = ram0, mem_rom = replicate kMemSize 0,
        banks = map junk [0..<sizeof_banks K], io = io0\<rparr>"
  define v where "v = kLORAM K OR kHIRAM K OR kCHAREN K"
  have seed: "for_loop 0 kMemSize
       (\<lambda>i m. store m i (if push_bit 1 (drop_bit 1 i) = i then 0 else 0xFF)) (replicate kMemSize 0)
     = Some ram0"
    unfolding ram0_def by (rule init_loop) simp
  have inv0: "mem_inv K s0" by (simp add: mem_inv_def s0_def ram0_def)
  from setup_memory_banks_total[OF wf inv0, of v]
  obtain rom where rom: "load_roms K (mem_rom s0) = Some rom" "length rom = kMemSize"
    and s1: "setup_memory_banks K s0 v
             = Some (s0\<lparr>mem_ram := (mem_ram s0)[unat (kAddrMemoryLayout K) := v],
                      mem_rom := rom, banks := assigned_banks K v\<rparr>)"
    by blast
  define s1 where "s1 = s0\<lparr>mem_ram := (mem_ram s0)[unat (kAddrMemoryLayout K) := v],
                      mem_rom := rom, banks := assigned_banks K v\<rparr>"
  have len1: "length (mem_ram s1) = kMemSize" by (simp add: s1_def s0_def ram0_def)
  define s2 where "s2 = s1\<lparr>mem_ram := (mem_ram s1)[unat (kAddrDataDirection K) := 0x2f]\<rparr>"
  have "Memory K junk io0 = Some s2"
    unfolding Memory_def
    using seed s1[unfolded s0_def v_def] write_byte_no_io_Some[OF len1, of "kAddrDataDirection K" "0x2f"]
    by (simp add: s2_def s1_def s0_def v_def)
  moreover have "mem_inv K s2"
    using rom(2) by (simp add: mem_inv_def s2_def s1_def s0_def ram0_def)
  moreover have "load_roms K (replicate kMemSize 0) = Some (mem_rom s2)"
    using rom(1) by (simp add: s2_def s1_def s0_def)
  ultimately show ?thesis by (intro exI[of _ s2]) simp
qed

section \<open>The character table in the ROM image\<close>

lemma store_all_frame:
  "store_all ws m = Some m' \<Longrightarrow> k \<notin> fst ` set ws \<Longrightarrow> m' ! k = m ! k"
proof (induction ws arbitrary: m)
  case Nil
  then show ?case by simp
next
  case (Cons w ws)
  obtain i v where w: "w = (i, v)" by (cases w)
  from Cons.prems(1) w obtain m1 where m1: "store m i v = Some m1" "store_all ws m1 = Some m'"
    by (auto split: option.splits)
  have "k \<noteq> i" "k \<notin> fst ` set ws" using Cons.prems(2) w by auto
  then have "m' ! k = m1 ! k" using Cons.IH[OF m1(2)] by simp
  also have "\<dots> = m ! k" using m1(1) \<open>k \<noteq> i\<close> by (auto simp: store_def split: if_splits)
  finally show ?case .
qed

lemma patch_roms_frame:
  assumes "patch_roms m = Some m'" and "k < 0xEBAE"
  shows "m' ! k = m ! k"
  using assms(1) unfolding patch_roms_def
  by (rule store_all_frame) (use assms(2) in auto)

text \<open>
  After \<open>load_roms\<close> the ROM image holds the character table at \<open>kBaseAddrChars\<close>,
  when that area lies below the KERNAL image and below the lowest patched address.
\<close>

lemma load_roms_chars:
  assumes tab: "tables_ok K" and fit: "roms_fit K" and len: "length m = kMemSize"
    and below: "unat (kBaseAddrChars K) + 4096 \<le> unat (kBaseAddrKernal K)"
      "unat (kBaseAddrChars K) + 4096 \<le> 0xEBAE"
    and res: "load_roms K m = Some rom" and k: "k < 4096"
  shows "rom ! (unat (kBaseAddrChars K) + k) = charRomC64 K ! k"
proof -
  define cb where "cb = unat (kBaseAddrChars K)"
  define kb where "kb = unat (kBaseAddrKernal K)"
  define rom1 where "rom1 = overlay {unat (kBaseAddrBasic K)..<unat (kBaseAddrBasic K) + 8192}
     (\<lambda>k. basicRomC64 K ! (k - unat (kBaseAddrBasic K))) m"
  define rom2 where "rom2 = overlay {cb..<cb + 4096} (\<lambda>k. charRomC64 K ! (k - cb)) rom1"
  define rom3 where "rom3 = overlay {kb..<kb + 8192} (\<lambda>k. kernalRomC64 K ! (k - kb)) rom2"
  have l1: "length rom1 = kMemSize" using len by (simp add: rom1_def)
  have l2: "length rom2 = kMemSize" using l1 by (simp add: rom2_def)
  have c1: "for_loop 0 8192
       (\<lambda>i m. do { b \<leftarrow> fetch (basicRomC64 K) i; store m (unat (kBaseAddrBasic K) + i) b }) m
       = Some rom1"
    unfolding rom1_def using tab fit len
    by (intro copy_loop0) (simp_all add: tables_ok_def roms_fit_def)
  have c2: "for_loop 0 4096
       (\<lambda>i m. do { b \<leftarrow> fetch (charRomC64 K) i; store m (unat (kBaseAddrChars K) + i) b }) rom1
       = Some rom2"
    unfolding rom2_def cb_def using tab fit l1
    by (intro copy_loop0) (simp_all add: tables_ok_def roms_fit_def)
  have c3: "for_loop 0 8192
       (\<lambda>i m. do { b \<leftarrow> fetch (kernalRomC64 K) i; store m (unat (kBaseAddrKernal K) + i) b }) rom2
       = Some rom3"
    unfolding rom3_def kb_def using tab fit l2
    by (intro copy_loop0) (simp_all add: tables_ok_def roms_fit_def)
  have p: "patch_roms rom3 = Some rom"
    using res by (simp add: load_roms_def c1 c2 c3)
  have in_buf: "cb + k < kMemSize" using fit k by (simp add: roms_fit_def cb_def)
  have "rom ! (cb + k) = rom3 ! (cb + k)"
    using patch_roms_frame[OF p, of "cb + k"] below(2) k by (simp add: cb_def)
  also have "\<dots> = rom2 ! (cb + k)"
    using below(1) k in_buf l2 by (simp add: rom3_def cb_def kb_def)
  also have "\<dots> = charRomC64 K ! k"
    using k in_buf l1 by (simp add: rom2_def)
  finally show ?thesis by (simp add: cb_def)
qed

section \<open>Peripheral dispatch\<close>

text \<open>
  With the CHAREN region resolved to IO, \<open>write_byte\<close> hands each of the four windows to
  its peripheral with the masked address, and \<open>read_byte\<close> does so for the video pages
  and the two CIA pages.
\<close>

lemma write_byte_forwards:
  assumes "fetch (banks s) (kBankCharen K) = Some kIO" and "page_of a \<noteq> kAddrZeroPage K"
  shows "vic_page K a \<Longrightarrow>
           write_byte K D s a v = Some (s\<lparr>io := vic_write_register D (a AND 0x7f) v (io s)\<rparr>)"
    and "\<not> vic_page K a \<Longrightarrow> page_of a = kAddrCIA1Page K \<Longrightarrow>
           write_byte K D s a v = Some (s\<lparr>io := cia1_write_register D (a AND 0x0f) v (io s)\<rparr>)"
    and "\<not> vic_page K a \<Longrightarrow> page_of a \<noteq> kAddrCIA1Page K \<Longrightarrow> page_of a = kAddrCIA2Page K \<Longrightarrow>
           write_byte K D s a v = Some (s\<lparr>io := cia2_write_register D (a AND 0x0f) v (io s)\<rparr>)"
    and "\<not> vic_page K a \<Longrightarrow> page_of a \<noteq> kAddrCIA1Page K \<Longrightarrow> page_of a \<noteq> kAddrCIA2Page K \<Longrightarrow>
         page_of a = kAddrSIDPage K \<Longrightarrow>
           write_byte K D s a v = Some (s\<lparr>io := sid_write_register D (a AND 0xff) v (io s)\<rparr>)"
  using assms by (simp_all add: write_byte_pages)

lemma read_byte_forwards:
  assumes "fetch (banks s) (kBankCharen K) = Some kIO"
  shows "vic_page K a \<Longrightarrow>
           read_byte K D s a
           = Some (fst (vic_read_register D (a AND 0x7f) (io s)),
                   s\<lparr>io := snd (vic_read_register D (a AND 0x7f) (io s))\<rparr>)"
    and "\<not> vic_page K a \<Longrightarrow> page_of a = kAddrCIA1Page K \<Longrightarrow>
           read_byte K D s a
           = Some (fst (cia1_read_register D (a AND 0x0f) (io s)),
                   s\<lparr>io := snd (cia1_read_register D (a AND 0x0f) (io s))\<rparr>)"
    and "\<not> vic_page K a \<Longrightarrow> page_of a \<noteq> kAddrCIA1Page K \<Longrightarrow> page_of a = kAddrCIA2Page K \<Longrightarrow>
           read_byte K D s a
           = Some (fst (cia2_read_register D (a AND 0x0f) (io s)),
                   s\<lparr>io := snd (cia2_read_register D (a AND 0x0f) (io s))\<rparr>)"
  using assms by (simp_all add: read_byte_pages split: prod.splits)

text \<open>\<open>read_byte\<close> has no branch for the sound-register page.\<close>

lemma read_byte_sid_page:
  assumes "page_of a = kAddrSIDPage K" and "plain_read K a"
    and "length (mem_ram s) = kMemSize"
  shows "read_byte K D s a = Some (mem_ram s ! unat a, s)"
  using assms(2,3) by (rule read_byte_plain)

section \<open>Facts about the concrete configuration\<close>

lemma well_formed_sample: "well_formed sample_constants"
  by (simp add: well_formed_def tables_ok_def roms_fit_def banks_ok_def sample_constants_def
      kMemSize_def)

lemma mem_inv_sample: "mem_inv sample_constants sample_memory"
  by (simp add: mem_inv_def sample_constants_def sample_memory_def kMemSize_def)

lemma mem_inv_sample_io: "mem_inv sample_constants sample_memory_io"
  by (simp add: mem_inv_def sample_constants_def sample_memory_io_def kMemSize_def)

lemma plain_read_sample_zero_page:
  "page_of a = 0 \<Longrightarrow> plain_read sample_constants a"
  by (simp add: plain_read_def vic_page_def basic_page_def kernal_page_def
      sample_constants_def)

lemma sample_pages:
  "page_of (0xD41B :: addr) = 0xD400" "page_of (0xD020 :: addr) = 0xD000"
  "page_of (0xDC0D :: addr) = 0xDC00" "page_of (0xDD00 :: addr) = 0xDD00"
  "page_of (313 :: addr) = 0x0100"
  by (simp_all add: page_of_def)

lemma sample_prg:
  "prg_load_address sample_constants = 0x0801" "prg_length sample_constants = 3"
  by (simp_all add: prg_load_address_def prg_length_def sample_constants_def)

lemma hook_address_clear_sample: "hook_address_clear sample_constants"
proof -
  have "(0x0801 :: addr) + of_nat d \<noteq> 313" if "d < 3" for d
  proof -
    from that consider "d = 0" | "d = 1" | "d = 2" by arith
    then show ?thesis by cases simp_all
  qed
  then show ?thesis by (simp add: hook_address_clear_def sample_prg)
qed

lemma plain_write_sample_313: "plain_write sample_constants 313"
  by (simp add: plain_write_def io_window_def vic_page_def page_of_def sample_constants_def)

lemma well_formed_font: "well_formed font_constants"
  by (simp add: well_formed_def tables_ok_def roms_fit_def banks_ok_def font_constants_def
      sample_constants_def kMemSize_def)

lemma mem_inv_blank: "mem_inv font_constants blank_memory"
  by (simp add: mem_inv_def font_constants_def blank_memory_def sample_constants_def
      sample_memory_def kMemSize_def)

section \<open>The claims of the specification\<close>

text \<open>
  C1. For every latch value passed to \<open>setup_memory_banks\<close> the three region assignments
  follow the rule table: KERNAL is ROM if HIRAM is set and RAM otherwise; BASIC is ROM if
  both LORAM and HIRAM are set and RAM otherwise; CHAREN is IO if CHAREN and one of
  LORAM, HIRAM are set, RAM if CHAREN is set and both are clear, and ROM if CHAREN is
  clear. The three indices into \<open>banks_\<close> are taken to be different and in range.
\<close>

theorem setup_memory_banks_rule_table:
  assumes "well_formed K" and "mem_inv K s"
    and "distinct [kBankBasic K, kBankCharen K, kBankKernal K]"
  shows "\<exists>s'. setup_memory_banks K s v = Some s'
     \<and> fetch (banks s') (kBankKernal K) = Some (if hiram_set K v then kROM else kRAM)
     \<and> fetch (banks s') (kBankBasic K)
         = Some (if loram_set K v \<and> hiram_set K v then kROM else kRAM)
     \<and> fetch (banks s') (kBankCharen K)
         = Some (if charen_set K v
                 then (if loram_set K v \<or> hiram_set K v then kIO else kRAM)
                 else kROM)"
proof -
  have ok: "banks_ok K" using assms(1) by (simp add: well_formed_def)
  from setup_memory_banks_total[OF assms(1,2), of v]
  obtain rom where "setup_memory_banks K s v
             = Some (s\<lparr>mem_ram := (mem_ram s)[unat (kAddrMemoryLayout K) := v],
                      mem_rom := rom, banks := assigned_banks K v\<rparr>)" by blast
  then show ?thesis
    using assigned_banks_lookup[OF ok assms(3), of v] by simp
qed

theorem setup_memory_banks_rule_table_witness:
  "well_formed sample_constants \<and> mem_inv sample_constants sample_memory
   \<and> distinct [kBankBasic sample_constants, kBankCharen sample_constants,
                kBankKernal sample_constants]
   \<and> (\<exists>s'. setup_memory_banks sample_constants sample_memory 5 = Some s'
        \<and> fetch (banks s') 6 = Some kRAM
        \<and> fetch (banks s') 3 = Some kRAM
        \<and> fetch (banks s') 5 = Some kIO)"
proof -
  have d: "distinct [kBankBasic sample_constants, kBankCharen sample_constants,
                     kBankKernal sample_constants]"
    by (simp add: sample_constants_def)
  have bits: "\<not> hiram_set sample_constants 5" "loram_set sample_constants 5"
    "charen_set sample_constants 5"
    by (simp_all add: hiram_set_def loram_set_def charen_set_def sample_constants_def)
  have idx: "kBankKernal sample_constants = 6" "kBankBasic sample_constants = 3"
    "kBankCharen sample_constants = 5"
    by (simp_all add: sample_constants_def)
  show ?thesis
    using setup_memory_banks_rule_table[OF well_formed_sample mem_inv_sample d, of 5]
      well_formed_sample mem_inv_sample d
    by (simp add: bits idx)
qed

text \<open>
  C2. For every address \<open>a\<close> and value \<open>v\<close> and every state of the region assignments:
  if \<open>a\<close> is not the bank-configuration address and the write is not handed to a
  peripheral, then after \<open>write_byte\<close> of \<open>v\<close> at \<open>a\<close>, \<open>read_byte_no_io\<close> at \<open>a\<close>
  returns \<open>v\<close>, whatever \<open>a\<close> decodes to for reads. The program image that the hook at
  address 313 loads is taken not to cover address 313.
\<close>

theorem write_byte_read_back:
  assumes "well_formed K" and "mem_inv K s"
    and "a \<noteq> kAddrMemoryLayout K" and "\<not> dispatched_write K s a"
    and "hook_address_clear K"
  shows "\<exists>s'. write_byte K D s a v = Some s' \<and> read_byte_no_io s' a = Some v"
proof -
  have ok: "banks_ok K" and tab: "tables_ok K"
    using assms(1) by (simp_all add: well_formed_def)
  have len: "length (mem_ram s) = kMemSize" using assms(2) by (simp add: mem_inv_def)
  note plain = write_byte_no_io_read_back[OF len, of a v]
  consider (zp) "page_of a = kAddrZeroPage K"
    | (win) "page_of a \<noteq> kAddrZeroPage K" "io_window K a"
    | (rest) "page_of a \<noteq> kAddrZeroPage K" "\<not> io_window K a"
    by blast
  then show ?thesis
  proof cases
    case zp
    then have "write_byte K D s a v = write_byte_no_io s a v"
      using assms(3) by (simp add: write_byte_pages)
    then show ?thesis using plain by simp
  next
    case win
    then have "banks s ! kBankCharen K \<noteq> kIO"
      using assms(4) fetch_bank(1)[OF assms(2) ok] by (simp add: dispatched_write_def)
    then have "write_byte K D s a v = write_byte_no_io s a v"
      using win by (auto simp: write_byte_pages io_window_def fetch_bank(1)[OF assms(2) ok])
    then show ?thesis using plain by simp
  next
    case rest
    show ?thesis
    proof (cases "a = 313 \<and> v = 255")
      case True
      have "write_byte K D s a v = patch_ram K (s\<lparr>mem_ram := (mem_ram s)[313 := 255]\<rparr>)"
        using rest True by (simp add: write_byte_pages io_window_def write_byte_no_io_Some[OF len])
      then show ?thesis
        using write_byte_hook[OF tab assms(2,5)] True by simp
    next
      case False
      then have "write_byte K D s a v = write_byte_no_io s a v"
        using rest by (auto simp: write_byte_pages io_window_def write_byte_no_io_Some[OF len])
      then show ?thesis using plain by simp
    qed
  qed
qed

theorem write_byte_read_back_witness:
  "well_formed sample_constants \<and> mem_inv sample_constants sample_memory_io
   \<and> 0xE123 \<noteq> kAddrMemoryLayout sample_constants
   \<and> \<not> dispatched_write sample_constants sample_memory_io 0xE123
   \<and> hook_address_clear sample_constants
   \<and> (\<exists>s'. write_byte sample_constants logging_devices sample_memory_io 0xE123 0x77 = Some s'
          \<and> read_byte_no_io s' 0xE123 = Some 0x77)
   \<and> 313 \<noteq> kAddrMemoryLayout sample_constants
   \<and> \<not> dispatched_write sample_constants sample_memory_io 313
   \<and> (\<exists>s'. write_byte sample_constants logging_devices sample_memory_io 313 255 = Some s'
          \<and> read_byte_no_io s' 313 = Some 255)"
proof -
  have a1: "0xE123 \<noteq> kAddrMemoryLayout sample_constants"
    "313 \<noteq> kAddrMemoryLayout sample_constants"
    by (simp_all add: sample_constants_def)
  have nd: "\<not> dispatched_write sample_constants sample_memory_io 0xE123"
    "\<not> dispatched_write sample_constants sample_memory_io 313"
    by (simp_all add: dispatched_write_def io_window_def vic_page_def page_of_def
        sample_constants_def)
  show ?thesis
    using write_byte_read_back[OF well_formed_sample mem_inv_sample_io a1(1) nd(1)
        hook_address_clear_sample, of logging_devices "0x77"]
      write_byte_read_back[OF well_formed_sample mem_inv_sample_io a1(2) nd(2)
        hook_address_clear_sample, of logging_devices "255"]
      well_formed_sample mem_inv_sample_io a1 nd hook_address_clear_sample
    by simp
qed

text \<open>
  C3. For every value \<open>v\<close>, \<open>write_byte\<close> at the bank-configuration address reconfigures
  instead of storing: the result is that of \<open>setup_memory_banks\<close> with \<open>v\<close>; afterwards a
  read of that address, with or without I/O, returns \<open>v\<close>, and the three region
  assignments are those the rule table derives from \<open>v\<close>. The configuration address is
  taken to lie in the page that \<open>write_byte\<close> tests as the zero page and outside the
  pages that \<open>read_byte\<close> treats specially.
\<close>

theorem write_byte_memory_layout:
  assumes "well_formed K" and "mem_inv K s"
    and "distinct [kBankBasic K, kBankCharen K, kBankKernal K]"
    and "page_of (kAddrMemoryLayout K) = kAddrZeroPage K"
    and "plain_read K (kAddrMemoryLayout K)"
  shows "\<exists>s'. write_byte K D s (kAddrMemoryLayout K) v = Some s'
     \<and> setup_memory_banks K s v = Some s'
     \<and> read_byte_no_io s' (kAddrMemoryLayout K) = Some v
     \<and> read_byte K D s' (kAddrMemoryLayout K) = Some (v, s')
     \<and> fetch (banks s') (kBankKernal K) = Some (if hiram_set K v then kROM else kRAM)
     \<and> fetch (banks s') (kBankBasic K)
         = Some (if loram_set K v \<and> hiram_set K v then kROM else kRAM)
     \<and> fetch (banks s') (kBankCharen K)
         = Some (if charen_set K v
                 then (if loram_set K v \<or> hiram_set K v then kIO else kRAM)
                 else kROM)"
proof -
  have ok: "banks_ok K" using assms(1) by (simp add: well_formed_def)
  from setup_memory_banks_total[OF assms(1,2), of v]
  obtain rom where rom: "length rom = kMemSize"
    and s1: "setup_memory_banks K s v
             = Some (s\<lparr>mem_ram := (mem_ram s)[unat (kAddrMemoryLayout K) := v],
                      mem_rom := rom, banks := assigned_banks K v\<rparr>)"
    by blast
  define s1 where "s1 = s\<lparr>mem_ram := (mem_ram s)[unat (kAddrMemoryLayout K) := v],
                      mem_rom := rom, banks := assigned_banks K v\<rparr>"
  have w: "write_byte K D s (kAddrMemoryLayout K) v = setup_memory_banks K s v"
    using assms(4) by (simp add: write_byte_pages)
  have len1: "length (mem_ram s1) = kMemSize"
    using assms(2) by (simp add: mem_inv_def s1_def)
  have at: "mem_ram s1 ! unat (kAddrMemoryLayout K) = v"
    using assms(2) unat_addr_lt[of "kAddrMemoryLayout K"]
    by (simp add: s1_def mem_inv_def kMemSize_def)
  have r1: "read_byte_no_io s1 (kAddrMemoryLayout K) = Some v"
    using read_byte_no_io_Some[OF len1, of "kAddrMemoryLayout K"] at by simp
  have r2: "read_byte K D s1 (kAddrMemoryLayout K) = Some (v, s1)"
    using read_byte_plain[OF assms(5) len1, of D] at by simp
  have b: "banks s1 = assigned_banks K v" by (simp add: s1_def)
  have s1eq: "setup_memory_banks K s v = Some s1" using s1 by (simp add: s1_def)
  show ?thesis
    using w s1eq r1 r2 assigned_banks_lookup[OF ok assms(3), of v]
    by (intro exI[of _ s1]) (simp add: b)
qed

theorem write_byte_memory_layout_witness:
  "well_formed sample_constants \<and> mem_inv sample_constants sample_memory
   \<and> distinct [kBankBasic sample_constants, kBankCharen sample_constants,
                kBankKernal sample_constants]
   \<and> page_of (kAddrMemoryLayout sample_constants) = kAddrZeroPage sample_constants
   \<and> plain_read sample_constants (kAddrMemoryLayout sample_constants)
   \<and> (\<exists>s'. write_byte sample_constants logging_devices sample_memory 1 3 = Some s'
        \<and> setup_memory_banks sample_constants sample_memory 3 = Some s'
        \<and> read_byte_no_io s' 1 = Some 3
        \<and> read_byte sample_constants logging_devices s' 1 = Some (3, s')
        \<and> fetch (banks s') 6 = Some kROM
        \<and> fetch (banks s') 3 = Some kROM
        \<and> fetch (banks s') 5 = Some kROM)"
proof -
  have d: "distinct [kBankBasic sample_constants, kBankCharen sample_constants,
                     kBankKernal sample_constants]"
    by (simp add: sample_constants_def)
  have pg: "page_of (kAddrMemoryLayout sample_constants) = kAddrZeroPage sample_constants"
    by (simp add: sample_constants_def page_of_def)
  have pr: "plain_read sample_constants (kAddrMemoryLayout sample_constants)"
    by (rule plain_read_sample_zero_page) (simp add: sample_constants_def page_of_def)
  have bits: "hiram_set sample_constants 3" "loram_set sample_constants 3"
    "\<not> charen_set sample_constants 3"
    by (simp_all add: hiram_set_def loram_set_def charen_set_def sample_constants_def)
  have idx: "kBankKernal sample_constants = 6" "kBankBasic sample_constants = 3"
    "kBankCharen sample_constants = 5" "kAddrMemoryLayout sample_constants = 1"
    by (simp_all add: sample_constants_def)
  show ?thesis
    using write_byte_memory_layout[OF well_formed_sample mem_inv_sample d pg pr,
        of logging_devices 3]
      well_formed_sample mem_inv_sample d pg pr
    by (simp add: bits idx)
qed

text \<open>
  C4. With the CHAREN region resolved to IO, \<open>write_byte\<close> forwards a write in the sound
  register page to the sound chip, but \<open>read_byte\<close> has no branch for that page: a read
  of 0xD41B returns the RAM byte and reaches no peripheral, while reads in the video and
  CIA pages are forwarded.
\<close>

theorem sid_read_not_forwarded:
  "read_byte sample_constants logging_devices sample_memory_io 0xD41B
     = Some (0x5A, sample_memory_io)
   \<and> write_byte sample_constants logging_devices sample_memory_io 0xD41B 0x0F
     = Some (sample_memory_io\<lparr>io := [SidWrite 0x1B 0x0F]\<rparr>)
   \<and> read_byte sample_constants logging_devices sample_memory_io 0xD020
     = Some (0x11, sample_memory_io\<lparr>io := [VicRead 0x20]\<rparr>)
   \<and> read_byte sample_constants logging_devices sample_memory_io 0xDC0D
     = Some (0x22, sample_memory_io\<lparr>io := [Cia1Read 0x0D]\<rparr>)
   \<and> read_byte sample_constants logging_devices sample_memory_io 0xDD00
     = Some (0x33, sample_memory_io\<lparr>io := [Cia2Read 0x00]\<rparr>)"
proof -
  have K: "kAddrVicFirstPage sample_constants = 0xD000" "kAddrVicLastPage sample_constants = 0xD300"
    "kAddrCIA1Page sample_constants = 0xDC00" "kAddrCIA2Page sample_constants = 0xDD00"
    "kAddrSIDPage sample_constants = 0xD400" "kAddrZeroPage sample_constants = 0"
    "kAddrBasicFirstPage sample_constants = 0xA000" "kAddrBasicLastPage sample_constants = 0xBF00"
    "kAddrKernalFirstPage sample_constants = 0xE000" "kAddrKernalLastPage sample_constants = 0xFF00"
    "kBankCharen sample_constants = 5"
    by (simp_all add: sample_constants_def)
  have bank: "fetch (banks sample_memory_io) 5 = Some kIO"
    by (simp add: fetch_def sample_memory_io_def)
  have ram: "fetch (mem_ram sample_memory_io) 0xD41B = Some 0x5A"
    by (simp add: fetch_def sample_memory_io_def)
  have io0: "io sample_memory_io = []" by (simp add: sample_memory_io_def)
  have D: "vic_read_register logging_devices = (\<lambda>r w. (0x11, w @ [VicRead r]))"
    "cia1_read_register logging_devices = (\<lambda>r w. (0x22, w @ [Cia1Read r]))"
    "cia2_read_register logging_devices = (\<lambda>r w. (0x33, w @ [Cia2Read r]))"
    "sid_write_register logging_devices = (\<lambda>r v w. w @ [SidWrite r v])"
    by (simp_all add: logging_devices_def)
  have r1: "read_byte sample_constants logging_devices sample_memory_io 0xD41B
     = Some (0x5A, sample_memory_io)"
    by (simp add: read_byte_pages vic_page_def basic_page_def kernal_page_def sample_pages K ram)
  have w1: "write_byte sample_constants logging_devices sample_memory_io 0xD41B 0x0F
     = Some (sample_memory_io\<lparr>io := [SidWrite 0x1B 0x0F]\<rparr>)"
    by (simp add: write_byte_pages vic_page_def sample_pages K bank D io0)
  have r2: "read_byte sample_constants logging_devices sample_memory_io 0xD020
     = Some (0x11, sample_memory_io\<lparr>io := [VicRead 0x20]\<rparr>)"
    by (simp add: read_byte_pages vic_page_def sample_pages K bank D io0)
  have r3: "read_byte sample_constants logging_devices sample_memory_io 0xDC0D
     = Some (0x22, sample_memory_io\<lparr>io := [Cia1Read 0x0D]\<rparr>)"
    by (simp add: read_byte_pages vic_page_def sample_pages K bank D io0)
  have r4: "read_byte sample_constants logging_devices sample_memory_io 0xDD00
     = Some (0x33, sample_memory_io\<lparr>io := [Cia2Read 0x00]\<rparr>)"
    by (simp add: read_byte_pages vic_page_def sample_pages K bank D io0)
  show ?thesis using r1 w1 r2 r3 r4 by (intro conjI)
qed

text \<open>
  C5, as stated: the payload is in RAM once the constructor has completed. The
  constructor never calls \<open>patch_ram\<close>: on the sample configuration (load address
  0x0801, three program bytes, the first 0xAA) the RAM still holds its seed pattern at
  the load address and at the two pointer bytes, where 0x04 and 0x08 would encode
  0x0801 + 3.
\<close>

theorem constructor_payload_counterexample:
  "prg_load_address sample_constants = 0x0801
   \<and> prg_length sample_constants = 3
   \<and> paku_prg sample_constants ! 2 = 0xAA
   \<and> peek_constructed sample_constants 0x0801 = Some 0xFF
   \<and> peek_constructed sample_constants 0x2D = Some 0xFF
   \<and> peek_constructed sample_constants 0x2E = Some 0x00
   \<and> (0x0801 + prg_length sample_constants) mod 256 = 0x04
   \<and> (0x0801 + prg_length sample_constants) div 256 = 0x08"
proof -
  from Memory_result[OF well_formed_sample, of "\<lambda>_. kRAM" "[] :: io_event list"]
  obtain rom where m: "Memory sample_constants (\<lambda>_. kRAM) ([] :: io_event list)
     = Some \<lparr>mem_ram = (map (\<lambda>i. if push_bit 1 (drop_bit 1 i) = i then 0 else 0xFF) [0..<kMemSize])
                 [unat (kAddrMemoryLayout sample_constants)
                    := kLORAM sample_constants OR kHIRAM sample_constants OR kCHAREN sample_constants,
                  unat (kAddrDataDirection sample_constants) := 0x2f],
              mem_rom = rom,
              banks = assigned_banks sample_constants
                (kLORAM sample_constants OR kHIRAM sample_constants OR kCHAREN sample_constants),
              io = []\<rparr>"
    by blast
  have K: "unat (kAddrMemoryLayout sample_constants) = 1"
    "unat (kAddrDataDirection sample_constants) = 0"
    by (simp_all add: sample_constants_def)
  have seed: "push_bit 1 (drop_bit 1 (0x0801 :: nat)) \<noteq> 0x0801"
    "push_bit 1 (drop_bit 1 (0x2D :: nat)) \<noteq> 0x2D"
    "push_bit 1 (drop_bit 1 (0x2E :: nat)) = 0x2E"
    by (simp_all add: push_bit_eq_mult drop_bit_eq_div)
  have p1: "peek_constructed sample_constants 0x0801 = Some 0xFF"
    and p2: "peek_constructed sample_constants 0x2D = Some 0xFF"
    and p3: "peek_constructed sample_constants 0x2E = Some 0x00"
    using seed
    by (simp_all add: peek_constructed_def m K read_byte_no_io_def fetch_def kMemSize_def)
  have "paku_prg sample_constants ! 2 = 0xAA" by (simp add: sample_constants_def)
  then show ?thesis using p1 p2 p3 by (simp add: sample_prg)
qed

text \<open>
  C5, amended. The payload is injected by \<open>patch_ram\<close>, which runs when \<open>write_byte\<close>
  stores the value 255 at address 313, not at construction. After that write, with \<open>L\<close>
  the load address and \<open>N\<close> the number of program bytes, \<open>read_byte_no_io\<close> at
  \<open>L + k\<close> returns program byte \<open>k\<close> for every \<open>k < N\<close> whose address is neither 0x2D
  nor 0x2E, and the bytes at 0x2D and 0x2E are the low and the high byte of
  \<open>0x0801 + N\<close>.
\<close>

theorem write_byte_injects_payload:
  assumes "tables_ok K" and "mem_inv K s" and "plain_write K 313"
    and "2 \<le> paku_prg_size K" and "paku_prg_size K < 65536"
  shows "\<exists>s'. write_byte K D s 313 255 = Some s'
     \<and> (\<forall>k < prg_length K. prg_load_address K + of_nat k \<notin> {0x2D, 0x2E} \<longrightarrow>
           read_byte_no_io s' (prg_load_address K + of_nat k) = Some (paku_prg K ! (k + 2)))
     \<and> read_byte_no_io s' 0x2D = Some (of_nat ((0x0801 + prg_length K) mod 256))
     \<and> read_byte_no_io s' 0x2E = Some (of_nat ((0x0801 + prg_length K) div 256))"
proof -
  let ?s1 = "s\<lparr>mem_ram := (mem_ram s)[313 := 255]\<rparr>"
  have len: "length (mem_ram s) = kMemSize" using assms(2) by (simp add: mem_inv_def)
  have len1: "length (mem_ram ?s1) = kMemSize" using len by simp
  have w: "write_byte K D s 313 255 = patch_ram K ?s1"
    using assms(3)
    by (simp add: write_byte_pages plain_write_def io_window_def write_byte_no_io_Some[OF len])
  have sz: "paku_prg_size K mod 65536 = paku_prg_size K" using assms(5) by simp
  have ptr: "0x0801 + paku_prg_size K mod 65536 - 2 = 0x0801 + prg_length K"
    using assms(4) by (simp add: prg_length_def sz)
  from patch_ram_result[OF assms(1) len1]
  obtain ram' where res: "patch_ram K ?s1 = Some (?s1\<lparr>mem_ram := ram'\<rparr>)"
    and l': "length ram' = kMemSize"
    and lo: "ram' ! 0x2D = of_nat ((0x0801 + paku_prg_size K mod 65536 - 2) mod 256)"
    and hi: "ram' ! 0x2E = of_nat ((0x0801 + paku_prg_size K mod 65536 - 2) div 256)"
    and prg: "\<forall>d < prg_length K. unat (prg_load_address K + of_nat d) \<notin> {0x2D, 0x2E} \<longrightarrow>
            ram' ! unat (prg_load_address K + of_nat d) = paku_prg K ! (d + 2)"
    by blast
  define s' where "s' = ?s1\<lparr>mem_ram := ram'\<rparr>"
  have ls': "length (mem_ram s') = kMemSize" using l' by (simp add: s'_def)
  have rd: "read_byte_no_io s' x = Some (ram' ! unat x)" for x
    using read_byte_no_io_Some[OF ls', of x] by (simp add: s'_def)
  have a: "read_byte_no_io s' (prg_load_address K + of_nat k) = Some (paku_prg K ! (k + 2))"
    if k: "k < prg_length K" "prg_load_address K + of_nat k \<notin> {0x2D, 0x2E}" for k
  proof -
    have "unat (prg_load_address K + of_nat k) \<noteq> unat (0x2D :: addr)"
      "unat (prg_load_address K + of_nat k) \<noteq> unat (0x2E :: addr)"
      using k(2) word_unat_eq_iff by blast+
    then have "unat (prg_load_address K + of_nat k) \<notin> {0x2D, 0x2E}" by simp
    then show ?thesis using prg k(1) by (simp add: rd)
  qed
  have b: "read_byte_no_io s' 0x2D = Some (of_nat ((0x0801 + prg_length K) mod 256))"
    using lo unfolding ptr by (simp add: rd)
  have c: "read_byte_no_io s' 0x2E = Some (of_nat ((0x0801 + prg_length K) div 256))"
    using hi unfolding ptr by (simp add: rd)
  have "write_byte K D s 313 255 = Some s'" using w res by (simp add: s'_def)
  then show ?thesis using a b c by (intro exI[of _ s']) simp
qed

theorem write_byte_injects_payload_witness:
  "tables_ok sample_constants \<and> mem_inv sample_constants sample_memory
   \<and> plain_write sample_constants 313
   \<and> 2 \<le> paku_prg_size sample_constants \<and> paku_prg_size sample_constants < 65536
   \<and> (\<exists>s'. write_byte sample_constants logging_devices sample_memory 313 255 = Some s'
        \<and> read_byte_no_io s' 0x0801 = Some 0xAA
        \<and> read_byte_no_io s' 0x0802 = Some 0xBB
        \<and> read_byte_no_io s' 0x0803 = Some 0xCC
        \<and> read_byte_no_io s' 0x2D = Some 0x04
        \<and> read_byte_no_io s' 0x2E = Some 0x08)"
proof -
  have tab: "tables_ok sample_constants"
    using well_formed_sample by (simp add: well_formed_def)
  have sz: "2 \<le> paku_prg_size sample_constants" "paku_prg_size sample_constants < 65536"
    by (simp_all add: sample_constants_def)
  from write_byte_injects_payload[OF tab mem_inv_sample plain_write_sample_313 sz,
      of logging_devices]
  obtain s' where w: "write_byte sample_constants logging_devices sample_memory 313 255 = Some s'"
    and prg: "\<And>k. k < 3 \<Longrightarrow> (0x0801 :: addr) + of_nat k \<notin> {0x2D, 0x2E} \<Longrightarrow>
           read_byte_no_io s' (0x0801 + of_nat k) = Some (paku_prg sample_constants ! (k + 2))"
    and lo: "read_byte_no_io s' 0x2D = Some (of_nat ((0x0801 + 3) mod 256))"
    and hi: "read_byte_no_io s' 0x2E = Some (of_nat ((0x0801 + 3) div 256))"
    unfolding sample_prg by blast
  have b0: "read_byte_no_io s' 0x0801 = Some 0xAA"
    using prg[of 0] by (simp add: sample_constants_def)
  have b1: "read_byte_no_io s' 0x0802 = Some 0xBB"
    using prg[of 1] by (simp add: sample_constants_def)
  have b2: "read_byte_no_io s' 0x0803 = Some 0xCC"
    using prg[of 2] by (simp add: sample_constants_def)
  show ?thesis
    using tab mem_inv_sample plain_write_sample_313 sz w b0 b1 b2 lo hi
    by (intro conjI exI[of _ s']) simp_all
qed

text \<open>
  C6. \<open>vic_read_byte\<close> adds the base address supplied by the second CIA to the relative
  address masked with 0x3FFF, in 16 bits. If the sum lies in 0x1000 to 0x1FFF or in
  0x9000 to 0x9FFF, the byte returned is the byte of the character table \<open>charRomC64\<close>
  at the low 12 bits of the sum; otherwise it is the byte of the RAM image at the sum.
  The result does not depend on the region assignments, and no peripheral register is
  read. The ROM image is one that \<open>load_roms\<close> has loaded, as it is from the
  constructor on, and the character area is taken to lie below the KERNAL image and
  below 0xEBAE, the lowest address that \<open>patch_roms\<close> overwrites.
\<close>

theorem vic_read_byte_view:
  assumes "tables_ok K" and "roms_fit K" and "mem_inv K s"
    and "length m = kMemSize" and "load_roms K m = Some (mem_rom s)"
    and "unat (kBaseAddrChars K) + 4096 \<le> unat (kBaseAddrKernal K)"
    and "unat (kBaseAddrChars K) + 4096 \<le> 0xEBAE"
  shows "vic_read_byte K D s a
         = Some (let vic_addr = vic_base_address D (io s) + (a AND 0x3fff)
                 in if (0x1000 \<le> vic_addr \<and> vic_addr \<le> 0x1FFF) \<or>
                       (0x9000 \<le> vic_addr \<and> vic_addr \<le> 0x9FFF)
                    then charRomC64 K ! unat (vic_addr AND 0xfff)
                    else mem_ram s ! unat vic_addr)
     \<and> vic_read_byte K D (s\<lparr>banks := b\<rparr>) a = vic_read_byte K D s a"
proof -
  have len: "length (mem_ram s) = kMemSize" "length (mem_rom s) = kMemSize"
    using assms(3) by (simp_all add: mem_inv_def)
  have rom: "fetch (mem_rom s) (unat (kBaseAddrChars K) + unat (x AND 0xfff))
             = Some (charRomC64 K ! unat (x AND 0xfff))" for x :: addr
  proof -
    have off: "unat (x AND 0xfff) < 4096" by (rule unat_and_fff)
    have "unat (kBaseAddrChars K) + unat (x AND 0xfff) < length (mem_rom s)"
      using off assms(2) len(2) by (simp add: roms_fit_def)
    then have "fetch (mem_rom s) (unat (kBaseAddrChars K) + unat (x AND 0xfff))
               = Some (mem_rom s ! (unat (kBaseAddrChars K) + unat (x AND 0xfff)))"
      by (rule fetch_Some)
    also have "mem_rom s ! (unat (kBaseAddrChars K) + unat (x AND 0xfff))
               = charRomC64 K ! unat (x AND 0xfff)"
      by (rule load_roms_chars[OF assms(1,2,4,6,7,5) off])
    finally show ?thesis .
  qed
  have "vic_read_byte K D s a
         = Some (let vic_addr = vic_base_address D (io s) + (a AND 0x3fff)
                 in if (0x1000 \<le> vic_addr \<and> vic_addr \<le> 0x1FFF) \<or>
                       (0x9000 \<le> vic_addr \<and> vic_addr \<le> 0x9FFF)
                    then charRomC64 K ! unat (vic_addr AND 0xfff)
                    else mem_ram s ! unat vic_addr)"
    by (simp add: vic_read_byte_def Let_def addr_less_iff_le_pred rom
        read_byte_no_io_Some[OF len(1)])
  moreover have "vic_read_byte K D (s\<lparr>banks := b\<rparr>) a = vic_read_byte K D s a"
    by (simp add: vic_read_byte_def read_byte_no_io_def Let_def)
  ultimately show ?thesis by simp
qed

theorem vic_read_byte_view_witness:
  "tables_ok font_constants \<and> roms_fit font_constants
   \<and> length (mem_rom blank_memory) = kMemSize
   \<and> unat (kBaseAddrChars font_constants) + 4096 \<le> unat (kBaseAddrKernal font_constants)
   \<and> unat (kBaseAddrChars font_constants) + 4096 \<le> 0xEBAE
   \<and> (\<exists>s'. setup_memory_banks font_constants blank_memory 7 = Some s'
         \<and> mem_inv font_constants s'
         \<and> load_roms font_constants (mem_rom blank_memory) = Some (mem_rom s')
         \<and> vic_read_byte font_constants logging_devices s' 0x1234 = Some 0x34
         \<and> vic_read_byte font_constants
              (logging_devices\<lparr>vic_base_address := (\<lambda>w. 0x8000)\<rparr>) s' 0x1235 = Some 0xC3
         \<and> vic_read_byte font_constants logging_devices s' 0x2234 = Some 0x5A
         \<and> vic_read_byte font_constants logging_devices (s'\<lparr>banks := replicate 7 kRAM\<rparr>) 0x1234
             = Some 0x34)"
proof -
  have tab: "tables_ok font_constants" and fit: "roms_fit font_constants"
    using well_formed_font by (simp_all add: well_formed_def)
  have len: "length (mem_rom blank_memory) = kMemSize"
    using mem_inv_blank by (simp add: mem_inv_def)
  have below: "unat (kBaseAddrChars font_constants) + 4096 \<le> unat (kBaseAddrKernal font_constants)"
    "unat (kBaseAddrChars font_constants) + 4096 \<le> 0xEBAE"
    by (simp_all add: font_constants_def sample_constants_def)
  from setup_memory_banks_total[OF well_formed_font mem_inv_blank, of 7]
  obtain rom where rom: "load_roms font_constants (mem_rom blank_memory) = Some rom"
    "length rom = kMemSize"
    and set: "setup_memory_banks font_constants blank_memory 7
             = Some (blank_memory\<lparr>mem_ram := (mem_ram blank_memory)
                        [unat (kAddrMemoryLayout font_constants) := 7],
                      mem_rom := rom, banks := assigned_banks font_constants 7\<rparr>)"
    by blast
  define s' where "s' = blank_memory\<lparr>mem_ram := (mem_ram blank_memory)
                        [unat (kAddrMemoryLayout font_constants) := 7],
                      mem_rom := rom, banks := assigned_banks font_constants 7\<rparr>"
  have inv: "mem_inv font_constants s'"
    using mem_inv_blank rom(2) by (simp add: mem_inv_def s'_def)
  have loaded: "load_roms font_constants (mem_rom blank_memory) = Some (mem_rom s')"
    using rom(1) by (simp add: s'_def)
  have io: "io s' = []" by (simp add: s'_def blank_memory_def sample_memory_def)
  have ram: "mem_ram s' ! 0x2234 = 0x5A"
    by (simp add: s'_def blank_memory_def sample_memory_def font_constants_def
        sample_constants_def)
  have font: "charRomC64 font_constants ! 0x234 = 0x34" "charRomC64 font_constants ! 0x235 = 0xC3"
    by (simp_all add: font_constants_def)
  have base: "vic_base_address logging_devices w = 0"
    "vic_base_address (logging_devices\<lparr>vic_base_address := (\<lambda>w. 0x8000)\<rparr>) w = 0x8000" for w
    by (simp_all add: logging_devices_def)
  note view = vic_read_byte_view[OF tab fit inv len loaded below]
  have r1: "vic_read_byte font_constants logging_devices s' 0x1234 = Some 0x34"
    using view[of logging_devices "0x1234" "replicate 7 kRAM"]
    by (simp add: base font Let_def)
  have r2: "vic_read_byte font_constants
              (logging_devices\<lparr>vic_base_address := (\<lambda>w. 0x8000)\<rparr>) s' 0x1235 = Some 0xC3"
    using view[of "logging_devices\<lparr>vic_base_address := (\<lambda>w. 0x8000)\<rparr>" "0x1235" "replicate 7 kRAM"]
    by (simp add: base font Let_def)
  have r3: "vic_read_byte font_constants logging_devices s' 0x2234 = Some 0x5A"
    using view[of logging_devices "0x2234" "replicate 7 kRAM"]
    by (simp add: base ram Let_def)
  have r4: "vic_read_byte font_constants logging_devices (s'\<lparr>banks := replicate 7 kRAM\<rparr>) 0x1234
             = Some 0x34"
    using view[of logging_devices "0x1234" "replicate 7 kRAM"] r1 by simp
  have s: "setup_memory_banks font_constants blank_memory 7 = Some s'"
    using set by (simp add: s'_def)
  show ?thesis
    using tab fit len below s inv loaded r1 r2 r3 r4
    by (intro conjI exI[of _ s']) simp_all
qed

text \<open>
  C7. Bank recomputation is idempotent and total: for every byte \<open>v\<close>, calling
  \<open>setup_memory_banks\<close> with \<open>v\<close> twice in succession leaves the state (RAM image, ROM
  image, region assignments) as one call does, and each of the three regions has a
  defined assignment afterwards.
\<close>

theorem setup_memory_banks_idempotent:
  assumes "well_formed K" and "mem_inv K s"
  shows "\<exists>s1. setup_memory_banks K s v = Some s1 \<and> setup_memory_banks K s1 v = Some s1
     \<and> (\<exists>c. fetch (banks s1) (kBankKernal K) = Some c)
     \<and> (\<exists>c. fetch (banks s1) (kBankBasic K) = Some c)
     \<and> (\<exists>c. fetch (banks s1) (kBankCharen K) = Some c)"
proof -
  from setup_memory_banks_total[OF assms, of v]
  obtain rom where rom: "length rom = kMemSize" "load_roms K rom = Some rom"
    and s1: "setup_memory_banks K s v
             = Some (s\<lparr>mem_ram := (mem_ram s)[unat (kAddrMemoryLayout K) := v],
                      mem_rom := rom, banks := assigned_banks K v\<rparr>)"
    by blast
  define s1 where "s1 = s\<lparr>mem_ram := (mem_ram s)[unat (kAddrMemoryLayout K) := v],
                      mem_rom := rom, banks := assigned_banks K v\<rparr>"
  have inv1: "mem_inv K s1"
    using assms(2) rom(1) by (simp add: mem_inv_def s1_def)
  have rom1: "load_roms K (mem_rom s1) = Some rom" using rom(2) by (simp add: s1_def)
  have again: "setup_memory_banks K s1 v = Some s1"
    using setup_memory_banks_result[OF assms(1) inv1 rom1, of v] by (simp add: s1_def)
  have ok: "banks_ok K" using assms(1) by (simp add: well_formed_def)
  have def: "\<exists>c. fetch (banks s1) (kBankKernal K) = Some c"
    "\<exists>c. fetch (banks s1) (kBankBasic K) = Some c"
    "\<exists>c. fetch (banks s1) (kBankCharen K) = Some c"
    using ok by (simp_all add: s1_def fetch_def banks_ok_def)
  have s1eq: "setup_memory_banks K s v = Some s1" using s1 by (simp add: s1_def)
  show ?thesis using s1eq again def by (intro exI[of _ s1]) simp
qed

theorem setup_memory_banks_idempotent_witness:
  "well_formed sample_constants \<and> mem_inv sample_constants sample_memory
   \<and> (\<exists>s1. setup_memory_banks sample_constants sample_memory 6 = Some s1
          \<and> setup_memory_banks sample_constants s1 6 = Some s1
          \<and> (\<exists>c. fetch (banks s1) 6 = Some c)
          \<and> (\<exists>c. fetch (banks s1) 3 = Some c)
          \<and> (\<exists>c. fetch (banks s1) 5 = Some c))"
proof -
  have idx: "kBankKernal sample_constants = 6" "kBankBasic sample_constants = 3"
    "kBankCharen sample_constants = 5"
    by (simp_all add: sample_constants_def)
  show ?thesis
    using setup_memory_banks_idempotent[OF well_formed_sample mem_inv_sample, of 6]
      well_formed_sample mem_inv_sample
    by (simp add: idx)
qed

text \<open>
  C8. Every runtime read and write operation is total: for every 16-bit address
  \<open>read_byte\<close>, \<open>write_byte\<close>, \<open>read_byte_no_io\<close>, \<open>write_byte_no_io\<close> and the four word
  variants return a result, so none of their array accesses is out of range and every
  read yields a byte; the state they leave has buffers of \<open>kMemSize\<close> bytes again. The
  state is one whose buffers have \<open>kMemSize\<close> bytes, as the constructor leaves them.
\<close>

theorem memory_access_total:
  assumes "well_formed K" and "mem_inv K s"
  shows "(\<exists>r s'. read_byte K D s a = Some (r, s') \<and> mem_inv K s')
     \<and> (\<exists>s'. write_byte K D s a v = Some s' \<and> mem_inv K s')
     \<and> (\<exists>r. read_byte_no_io s a = Some r)
     \<and> (\<exists>s'. write_byte_no_io s a v = Some s' \<and> mem_inv K s')
     \<and> (\<exists>r s'. read_word K D s a = Some (r, s') \<and> mem_inv K s')
     \<and> (\<exists>s'. write_word K D s a w = Some s' \<and> mem_inv K s')
     \<and> (\<exists>r. read_word_no_io s a = Some r)
     \<and> (\<exists>s'. write_word_no_io s a w = Some s' \<and> mem_inv K s')"
proof -
  have ok: "banks_ok K" using assms(1) by (simp add: well_formed_def)
  have len: "length (mem_ram s) = kMemSize" using assms(2) by (simp add: mem_inv_def)
  have rb: "\<exists>r s'. read_byte K D s a = Some (r, s') \<and> mem_inv K s'"
    by (rule read_byte_total[OF assms(2) ok])
  have wb: "\<exists>s'. write_byte K D s a v = Some s' \<and> mem_inv K s'"
    by (rule write_byte_total[OF assms])
  have rn: "\<exists>r. read_byte_no_io s a = Some r"
    by (simp add: read_byte_no_io_Some[OF len])
  have wn: "\<exists>s'. write_byte_no_io s a v = Some s' \<and> mem_inv K s'"
    by (rule write_byte_no_io_total[OF assms(2)])
  have rw: "\<exists>r s'. read_word K D s a = Some (r, s') \<and> mem_inv K s'"
  proof -
    from read_byte_total[OF assms(2) ok, of D a]
    obtain lo s1 where 1: "read_byte K D s a = Some (lo, s1)" "mem_inv K s1" by blast
    from read_byte_total[OF 1(2) ok, of D "a + 1"]
    obtain hi s2 where 2: "read_byte K D s1 (a + 1) = Some (hi, s2)" "mem_inv K s2" by blast
    show ?thesis using 1 2 by (simp add: read_word_def)
  qed
  have ww: "\<exists>s'. write_word K D s a w = Some s' \<and> mem_inv K s'"
  proof -
    from write_byte_total[OF assms, of D a "ucast w"]
    obtain s1 where 1: "write_byte K D s a (ucast w) = Some s1" "mem_inv K s1" by blast
    from write_byte_total[OF assms(1) 1(2), of D "a + 1" "ucast (drop_bit 8 w)"]
    obtain s2 where 2: "write_byte K D s1 (a + 1) (ucast (drop_bit 8 w)) = Some s2" "mem_inv K s2"
      by blast
    show ?thesis using 1 2 by (simp add: write_word_def)
  qed
  have rwn: "\<exists>r. read_word_no_io s a = Some r"
    by (simp add: read_word_no_io_def read_byte_no_io_Some[OF len])
  have wwn: "\<exists>s'. write_word_no_io s a w = Some s' \<and> mem_inv K s'"
  proof -
    from write_byte_no_io_total[OF assms(2), of a "ucast w"]
    obtain s1 where 1: "write_byte_no_io s a (ucast w) = Some s1" "mem_inv K s1" by blast
    from write_byte_no_io_total[OF 1(2), of "a + 1" "ucast (drop_bit 8 w)"]
    obtain s2 where 2: "write_byte_no_io s1 (a + 1) (ucast (drop_bit 8 w)) = Some s2" "mem_inv K s2"
      by blast
    show ?thesis using 1 2 by (simp add: write_word_no_io_def)
  qed
  show ?thesis using rb wb rn wn rw ww rwn wwn by (intro conjI)
qed

theorem memory_access_total_witness:
  "well_formed sample_constants \<and> mem_inv sample_constants sample_memory_io
   \<and> (\<exists>r s'. read_byte sample_constants logging_devices sample_memory_io 313 = Some (r, s')
          \<and> mem_inv sample_constants s')
   \<and> (\<exists>s'. write_byte sample_constants logging_devices sample_memory_io 313 255 = Some s'
          \<and> mem_inv sample_constants s')
   \<and> (\<exists>r. read_byte_no_io sample_memory_io 313 = Some r)
   \<and> (\<exists>s'. write_byte_no_io sample_memory_io 313 255 = Some s' \<and> mem_inv sample_constants s')
   \<and> (\<exists>r s'. read_word sample_constants logging_devices sample_memory_io 313 = Some (r, s')
          \<and> mem_inv sample_constants s')
   \<and> (\<exists>s'. write_word sample_constants logging_devices sample_memory_io 313 0x0737 = Some s'
          \<and> mem_inv sample_constants s')
   \<and> (\<exists>r. read_word_no_io sample_memory_io 313 = Some r)
   \<and> (\<exists>s'. write_word_no_io sample_memory_io 313 0x0737 = Some s'
          \<and> mem_inv sample_constants s')"
  using memory_access_total[OF well_formed_sample mem_inv_sample_io,
      where D = logging_devices and a = "313" and v = 255 and w = "0x0737"]
    well_formed_sample mem_inv_sample_io
  by simp



text \<open>
  C10. When the CHAREN region assignment is ROM, \<open>read_byte\<close> returns the ROM image
  content only for addresses in the video-register page window; for every address in
  the CIA1 or CIA2 page, and for every other address outside that window that is not in
  the BASIC or KERNAL pages, the sound-register page among them, it returns the RAM
  image byte.
\<close>

theorem read_byte_charen_rom:
  assumes "mem_inv K s" and "fetch (banks s) (kBankCharen K) = Some kROM"
  shows "(vic_page K a \<longrightarrow> read_byte K D s a = Some (mem_rom s ! unat a, s))
     \<and> (\<not> vic_page K a \<and>
          (page_of a = kAddrCIA1Page K \<or> page_of a = kAddrCIA2Page K \<or>
           (\<not> basic_page K a \<and> \<not> kernal_page K a))
         \<longrightarrow> read_byte K D s a = Some (mem_ram s ! unat a, s))"
proof -
  have len: "length (mem_ram s) = kMemSize" "length (mem_rom s) = kMemSize"
    using assms(1) by (simp_all add: mem_inv_def)
  show ?thesis
    using assms(2) by (auto simp: read_byte_pages fetch_ram len)
qed

theorem read_byte_charen_rom_witness:
  "mem_inv sample_constants (sample_memory\<lparr>banks := [kRAM, kRAM, kRAM, kRAM, kRAM, kROM, kRAM]\<rparr>)
   \<and> fetch (banks (sample_memory\<lparr>banks := [kRAM, kRAM, kRAM, kRAM, kRAM, kROM, kRAM]\<rparr>))
        (kBankCharen sample_constants) = Some kROM
   \<and> vic_page sample_constants 0xD020
   \<and> read_byte sample_constants logging_devices
        (sample_memory\<lparr>banks := [kRAM, kRAM, kRAM, kRAM, kRAM, kROM, kRAM]\<rparr>) 0xD020
      = Some (0xC3, sample_memory\<lparr>banks := [kRAM, kRAM, kRAM, kRAM, kRAM, kROM, kRAM]\<rparr>)
   \<and> \<not> vic_page sample_constants 0xD418
   \<and> page_of 0xD418 = kAddrSIDPage sample_constants
   \<and> \<not> basic_page sample_constants 0xD418 \<and> \<not> kernal_page sample_constants 0xD418
   \<and> read_byte sample_constants logging_devices
        (sample_memory\<lparr>banks := [kRAM, kRAM, kRAM, kRAM, kRAM, kROM, kRAM]\<rparr>) 0xD418
      = Some (0x5A, sample_memory\<lparr>banks := [kRAM, kRAM, kRAM, kRAM, kRAM, kROM, kRAM]\<rparr>)"
proof -
  let ?s = "sample_memory\<lparr>banks := [kRAM, kRAM, kRAM, kRAM, kRAM, kROM, kRAM]\<rparr>"
  have inv: "mem_inv sample_constants ?s"
    by (simp add: mem_inv_def sample_constants_def sample_memory_def kMemSize_def)
  have bank: "fetch (banks ?s) (kBankCharen sample_constants) = Some kROM"
    by (simp add: fetch_def sample_constants_def)
  have p1: "vic_page sample_constants 0xD020"
    by (simp add: vic_page_def page_of_def sample_constants_def)
  have p2: "\<not> vic_page sample_constants 0xD418" "page_of 0xD418 = kAddrSIDPage sample_constants"
    "\<not> basic_page sample_constants 0xD418" "\<not> kernal_page sample_constants 0xD418"
    by (simp_all add: vic_page_def basic_page_def kernal_page_def page_of_def sample_constants_def)
  have rom: "mem_rom ?s ! unat (0xD020 :: addr) = 0xC3"
    and ram: "mem_ram ?s ! unat (0xD418 :: addr) = 0x5A"
    by (simp_all add: sample_memory_def)
  show ?thesis
    using read_byte_charen_rom[OF inv bank, where a = "0xD020" and D = logging_devices]
      read_byte_charen_rom[OF inv bank, where a = "0xD418" and D = logging_devices]
      inv bank p1 p2 rom ram
    by simp
qed

end
